theory Spec2Isabelle
  imports Complex_Main
begin

section \<open>Strings\<close>

text \<open>
  A Python \<open>str\<close> is a sequence of Unicode code points and \<open>len\<close> counts code points.
  The normalizer removes code points far beyond one byte, so a string is modelled as the
  list of its code points. \<open>u\<close> reads an ASCII literal as such a list.
\<close>

type_synonym ustr = "nat list"

definition u :: "string \<Rightarrow> ustr" where
  "u s = map of_char s"

text \<open>
  \<open>str.lower\<close> belongs to the Python runtime and depends on the Unicode character
  database. The functions below take it as the parameter \<open>low\<close>. \<open>ascii_lower\<close> is the
  restriction of \<open>str.lower\<close> to ASCII text, used to run the model on concrete inputs.
\<close>

definition ascii_lower_cp :: "nat \<Rightarrow> nat" where
  "ascii_lower_cp c = (if 65 \<le> c \<and> c \<le> 90 then c + 32 else c)"

definition ascii_lower :: "ustr \<Rightarrow> ustr" where
  "ascii_lower s = map ascii_lower_cp s"

section \<open>Text normalizer (\<open>_seq.py\<close>, \<open>_clean_text\<close>)\<close>

text \<open>
  The character class of the substitution in \<open>_clean_text\<close>, in the order of the source:
  \<open>. , / # ! $ % ^ & * ; : { } = - _ ` ~ ( )\<close>, then U+3002, U+3001, U+FF1F, U+300C,
  U+300D, U+2026, and \<open>!\<close> once more. The backslashes of the pattern are escapes; the
  backslash itself is not in the class.
\<close>

definition punct :: "nat list" where
  "punct = [46, 44, 47, 35, 33, 36, 37, 94, 38, 42, 59, 58, 123, 125, 61, 45, 95, 96, 126,
            40, 41, 12290, 12289, 65311, 12300, 12301, 8230, 33]"

text \<open>
  \<open>text = (text or "").lower(); return re.sub(class, "", text)\<close>.
  \<open>clean_text_arg\<close> is the call with an argument that may be \<open>None\<close>.
\<close>

definition clean_text :: "(ustr \<Rightarrow> ustr) \<Rightarrow> ustr \<Rightarrow> ustr" where
  "clean_text low s = filter (\<lambda>c. c \<notin> set punct) (low s)"

definition clean_text_arg :: "(ustr \<Rightarrow> ustr) \<Rightarrow> ustr option \<Rightarrow> ustr" where
  "clean_text_arg low a = clean_text low (case a of None \<Rightarrow> [] | Some s \<Rightarrow> s)"

definition lower_stable :: "(ustr \<Rightarrow> ustr) \<Rightarrow> bool" where
  \<comment> \<open>Text made of code points that \<open>str.lower\<close> produced is left alone by \<open>str.lower\<close>.\<close>
  "lower_stable low = (\<forall>s t. set t \<subseteq> set (low s) \<longrightarrow> low t = t)"

section \<open>Script parser (\<open>_seq.py\<close>, \<open>_parse_script\<close>)\<close>

text \<open>
  The pattern is \<^verbatim>\<open>\[[Vv](\d+)\]\s*([^\[]+)\<close>, applied with \<open>re.findall\<close>.
  \<open>\s\<close> on a \<open>str\<close> pattern and \<open>str.strip()\<close> both use the runtime's whitespace test,
  which holds for exactly the code points below. \<open>\d\<close> and \<open>int()\<close> use the runtime's
  table of decimal digits, the parameter \<open>digit\<close> (the digit's value, if it is one);
  \<open>ascii_digit\<close> is its ASCII part.
\<close>

definition is_space :: "nat \<Rightarrow> bool" where
  "is_space c = (c \<in> set [9, 10, 11, 12, 13, 28, 29, 30, 31, 32, 133, 160, 5760,
                           8232, 8233, 8239, 8287, 12288] \<or> (8192 \<le> c \<and> c \<le> 8202))"

definition ascii_digit :: "nat \<Rightarrow> nat option" where
  "ascii_digit c = (if 48 \<le> c \<and> c \<le> 57 then Some (c - 48) else None)"

text \<open>
  One attempt of the pattern at the head of \<open>s\<close>: the two groups and the text after the
  match. The quantifiers are greedy. \<open>\d+\<close> has nothing to give back (what would follow
  is a digit, not \<open>]\<close>). When the greedy \<open>\s*\<close> leaves nothing for \<open>[^\[]+\<close>, the engine
  gives back one whitespace character, which then is the whole second group.
\<close>

definition match_marker :: "(nat \<Rightarrow> nat option) \<Rightarrow> ustr \<Rightarrow> ((ustr \<times> ustr) \<times> ustr) option" where
  "match_marker digit s =
     (case s of
        c0 # c1 # r0 \<Rightarrow>
          if c0 = 91 \<and> (c1 = 86 \<or> c1 = 118) then
            (let ds = takeWhile (\<lambda>c. digit c \<noteq> None) r0;
                 r1 = dropWhile (\<lambda>c. digit c \<noteq> None) r0
             in if ds = [] then None
                else (case r1 of
                        [] \<Rightarrow> None
                      | c2 # r2 \<Rightarrow>
                          if c2 = 93 then
                            (let ws = takeWhile is_space r2;
                                 r3 = dropWhile is_space r2;
                                 body = takeWhile (\<lambda>c. c \<noteq> 91) r3;
                                 r4 = dropWhile (\<lambda>c. c \<noteq> 91) r3
                             in if body \<noteq> [] then Some ((ds, body), r4)
                                else if ws \<noteq> [] then Some ((ds, [last ws]), r3)
                                else None)
                          else None))
          else None
      | _ \<Rightarrow> None)"

lemma match_marker_shorter:
  assumes "match_marker digit s = Some (m, rest)"
  shows "length rest < length s"
proof -
  obtain c0 c1 r0 where s: "s = c0 # c1 # r0"
    using assms by (auto simp: match_marker_def split: list.splits)
  obtain c2 r2 where r1: "dropWhile (\<lambda>c. digit c \<noteq> None) r0 = c2 # r2"
    using assms s by (auto simp: match_marker_def Let_def split: list.splits if_splits)
  have "length (c2 # r2) \<le> length r0"
    unfolding r1 [symmetric] by (rule length_dropWhile_le)
  then have r2: "length r2 < length r0"
    by simp
  have r3: "length (dropWhile is_space r2) \<le> length r2"
    by (rule length_dropWhile_le)
  have r4: "length (dropWhile (\<lambda>c. c \<noteq> 91) (dropWhile is_space r2)) \<le> length (dropWhile is_space r2)"
    by (rule length_dropWhile_le)
  have "rest = dropWhile is_space r2 \<or> rest = dropWhile (\<lambda>c. c \<noteq> 91) (dropWhile is_space r2)"
    using assms s r1 by (auto simp: match_marker_def Let_def split: if_splits)
  then show ?thesis
    using s r2 r3 r4 by auto
qed

text \<open>
  \<open>re.findall\<close>: scan from the left; after a match go on behind it, after a failed
  attempt go on one code point further.
\<close>

function findall :: "(nat \<Rightarrow> nat option) \<Rightarrow> ustr \<Rightarrow> (ustr \<times> ustr) list" where
  "findall digit s =
     (if s = [] then []
      else (case match_marker digit s of
              Some (m, rest) \<Rightarrow> m # findall digit rest
            | None \<Rightarrow> findall digit (tl s)))"
  by pat_completeness auto
termination
  by (relation "measure (\<lambda>(digit, s). length s)") (auto dest: match_marker_shorter)

text \<open>
  \<open>int()\<close> on a string of decimal digits. The interpreter's limit on the number of digits
  that \<open>int()\<close> converts (a setting of the runtime, 4300 by default from CPython 3.11
  on, beyond which \<open>int()\<close> raises \<open>ValueError\<close>) is left out: ids are taken to be shorter.
\<close>

definition int_of_digits :: "(nat \<Rightarrow> nat option) \<Rightarrow> ustr \<Rightarrow> int" where
  "int_of_digits digit ds =
     int (foldl (\<lambda>a c. 10 * a + (case digit c of Some d \<Rightarrow> d | None \<Rightarrow> 0)) 0 ds)"

definition strip :: "ustr \<Rightarrow> ustr" where
  "strip s = rev (dropWhile is_space (rev (dropWhile is_space s)))"

text \<open>
  \<open>[(int(m[0]), m[1].strip()) for m in re.findall(pattern, content or "", re.DOTALL)]\<close>
\<close>

definition parse_script :: "(nat \<Rightarrow> nat option) \<Rightarrow> ustr \<Rightarrow> (int \<times> ustr) list" where
  "parse_script digit content =
     map (\<lambda>(ds, body). (int_of_digits digit ds, strip body)) (findall digit content)"

definition parse_script_arg :: "(nat \<Rightarrow> nat option) \<Rightarrow> ustr option \<Rightarrow> (int \<times> ustr) list" where
  "parse_script_arg digit a = parse_script digit (case a of None \<Rightarrow> [] | Some s \<Rightarrow> s)"

section \<open>Exceptions\<close>

text \<open>
  The exceptions of the modelled code, all of them subclasses of \<open>Exception\<close>:
  \<open>RuntimeError\<close> with the first line of its message (the further lines, which quote the
  command, its output and the path of \<open>last_failed_cmd.txt\<close>, are left out);
  \<open>StopRequested\<close> (\<open>core/exceptions.py\<close>, \<open>StopRequestedError\<close>), which the engines' ffmpeg
  runners raise; \<open>ValueError\<close> and \<open>IndexError\<close> of the list operations.
  \<open>core/exceptions.py\<close> declares no exception for a malformed script.
\<close>

datatype exn = RuntimeError string | StopRequested | ValueError | IndexError

text \<open>
  What the two engines do with the text of the script file.
  \<open>engines/sk3_image_flow.py\<close>, \<open>process_image_flow\<close>:
  \<^verbatim>\<open>script_items = parse_script(f.read())
  if not script_items:
      raise RuntimeError("Script parse empty. Format: [V1] ... [V2] ...")\<close>
  \<open>engines/sk1_cutting.py\<close>, \<open>process_workflow\<close>, goes on with whatever was parsed.
\<close>

definition sk3_script_items :: "(nat \<Rightarrow> nat option) \<Rightarrow> ustr \<Rightarrow> exn + (int \<times> ustr) list" where
  "sk3_script_items digit content =
     (let script_items = parse_script digit content
      in if script_items = [] then Inl (RuntimeError ''Script parse empty. Format: [V1] ... [V2] ...'')
         else Inr script_items)"

definition sk1_script_items :: "(nat \<Rightarrow> nat option) \<Rightarrow> ustr \<Rightarrow> exn + (int \<times> ustr) list" where
  "sk1_script_items digit content = Inr (parse_script digit content)"

section \<open>Sequence aligner (\<open>_seq.py\<close>, \<open>_match_words_to_script\<close>)\<close>

text \<open>
  Times are Python floats. They are only read, added to \<open>0.1\<close>, subtracted and printed;
  they are modelled as rationals, and rounding is left out.

  An element of \<open>all_words\<close> is a \<open>dict\<close> or something else (\<open>isinstance(w, dict)\<close>).
  Of a \<open>dict\<close> the code reads the keys \<open>"word"\<close>, \<open>"start"\<close> and \<open>"end"\<close>, each of which may be
  absent; a value that is present has the type the transcription step gives it
  (\<open>str\<close>, \<open>float\<close>, \<open>float\<close>).

  \<open>difflib.SequenceMatcher(None, a, b).ratio()\<close> belongs to the Python library; it is the
  parameter \<open>ratio\<close>.
\<close>

type_synonym pyfloat = rat

datatype word = NotDict | Dict (get_word: "ustr option") (get_start: "pyfloat option") (get_end: "pyfloat option")

definition MAX_COLLECTED_LEN :: nat where
  "MAX_COLLECTED_LEN = 5000"

definition GC_INTERVAL :: nat where
  "GC_INTERVAL = 20"

text \<open>
  The variables of the \<open>while\<close> loop. \<open>current_words\<close> holds references to elements of
  \<open>all_words\<close>; the model keeps each element with its position in \<open>all_words\<close>.
  \<open>trace\<close> is not a variable of the source. It records, in order, the value of
  \<open>collected\<close> at every entry into the loop body (\<open>Iteration\<close>) and the value of
  \<open>collected\<close> at every call of \<open>ratio()\<close> (\<open>Ratio_call\<close>; the arguments of the call are
  \<open>_clean_text(collected)\<close> and \<open>target\<close>).
\<close>

datatype event = Iteration ustr | Ratio_call ustr

record acc =
  word_ptr :: nat
  collected :: ustr
  current_words :: "(nat \<times> word) list"
  trace :: "event list"

datatype flow = Break | Next

text \<open>
  The body of \<open>while word_ptr < total_words\<close>, entered with \<open>word_ptr < len(all_words)\<close>.
  \<open>len(collected) < len(target) * 0.5\<close> compares an integer with a float that is exact,
  so it is \<open>2 * len(collected) < len(target)\<close>. \<open>ratio > 0.85\<close> is evaluated before the second
  disjunct; the ratio is a quotient of integers far below the precision of a float, so
  the comparison with the float \<open>0.85\<close> is the comparison with \<open>85/100\<close>.
\<close>

definition while_body ::
  "(ustr \<Rightarrow> ustr) \<Rightarrow> (ustr \<Rightarrow> ustr \<Rightarrow> rat) \<Rightarrow> word list \<Rightarrow> ustr \<Rightarrow> acc \<Rightarrow> flow \<times> acc" where
  "while_body low ratio all_words target st =
     (let st0 = st\<lparr>trace := trace st @ [Iteration (collected st)]\<rparr>;
          w = all_words ! word_ptr st0;
          st1 = (case w of
                   Dict txt _ _ \<Rightarrow>
                     st0\<lparr>collected := collected st0 @ [32] @ (case txt of None \<Rightarrow> [] | Some t \<Rightarrow> t),
                         current_words := current_words st0 @ [(word_ptr st0, w)]\<rparr>
                 | NotDict \<Rightarrow> st0);
          st2 = st1\<lparr>word_ptr := word_ptr st1 + 1\<rparr>
      in if length (collected st2) > MAX_COLLECTED_LEN then (Break, st2)
         else if 2 * length (collected st2) < length target then (Next, st2)
         else
           (let st3 = st2\<lparr>trace := trace st2 @ [Ratio_call (collected st2)]\<rparr>
            in if ratio (clean_text low (collected st3)) target > 85 / 100
                  \<or> length (clean_text low (collected st3)) > length target + 20
               then (Break, st3)
               else (Next, st3)))"

lemma while_body_word_ptr:
  "word_ptr (snd (while_body low ratio all_words target st)) = word_ptr st + 1"
  by (simp add: while_body_def Let_def split: word.splits)

function while_loop ::
  "(ustr \<Rightarrow> ustr) \<Rightarrow> (ustr \<Rightarrow> ustr \<Rightarrow> rat) \<Rightarrow> word list \<Rightarrow> ustr \<Rightarrow> acc \<Rightarrow> acc" where
  "while_loop low ratio all_words target st =
     (if word_ptr st < length all_words then
        (case while_body low ratio all_words target st of
           (Break, st') \<Rightarrow> st'
         | (Next, st') \<Rightarrow> while_loop low ratio all_words target st')
      else st)"
  by pat_completeness auto
termination
  apply (relation "measure (\<lambda>(low, ratio, all_words, target, st). length all_words - word_ptr st)")
   apply simp
  subgoal for low ratio all_words target st fl st'
    using while_body_word_ptr [of low ratio all_words target st]
    by (cases "while_body low ratio all_words target st") auto
  done

text \<open>
  The state of the \<open>for\<close> loop over the script items: the word cursor, the list that is
  returned, the messages handed to \<open>log_func\<close> (when one is given) and the number of
  \<open>gc.collect()\<close> calls. \<open>used\<close> is not a variable of the source: for every tuple appended to
  \<open>matches\<close> it keeps the positions in \<open>all_words\<close> of that item's \<open>current_words\<close>.
\<close>

datatype log_msg = Skip_empty_target int | Skip_no_valid_words int | Skip_invalid_word_type int

record matcher =
  cursor :: nat
  matches :: "(int \<times> pyfloat \<times> pyfloat \<times> ustr) list"
  used :: "nat list list"
  logged :: "log_msg list"
  gc_calls :: nat

definition acc_init :: "nat \<Rightarrow> acc" where
  "acc_init p = \<lparr>word_ptr = p, collected = [], current_words = [], trace = []\<rparr>"

text \<open>One pass of the \<open>for\<close> loop, for the item \<open>(vid, text)\<close> at position \<open>item_idx\<close>.\<close>

definition item_step ::
  "(ustr \<Rightarrow> ustr) \<Rightarrow> (ustr \<Rightarrow> ustr \<Rightarrow> rat) \<Rightarrow> word list \<Rightarrow> matcher \<Rightarrow> nat \<times> int \<times> ustr \<Rightarrow> matcher" where
  "item_step low ratio all_words st item =
     (case item of (item_idx, vid, text) \<Rightarrow>
        (let target = clean_text low text
         in if target = [] then st\<lparr>logged := logged st @ [Skip_empty_target vid]\<rparr>
            else
              (let a = while_loop low ratio all_words target (acc_init (cursor st));
                   st1 = st\<lparr>cursor := word_ptr a\<rparr>
               in if current_words a = [] then st1\<lparr>logged := logged st1 @ [Skip_no_valid_words vid]\<rparr>
                  else
                    (case (snd (hd (current_words a)), snd (last (current_words a))) of
                       (Dict _ first_start _, Dict _ _ last_end) \<Rightarrow>
                         (let s_time = (case first_start of None \<Rightarrow> 0 | Some x \<Rightarrow> x);
                              e_time = (case last_end of None \<Rightarrow> s_time + 1 / 10 | Some y \<Rightarrow> y)
                          in st1\<lparr>matches := matches st1 @ [(vid, s_time, e_time, text)],
                                 used := used st1 @ [map fst (current_words a)],
                                 gc_calls := (if item_idx > 0 \<and> item_idx mod GC_INTERVAL = 0
                                              then gc_calls st1 + 1 else gc_calls st1)\<rparr>)
                     | _ \<Rightarrow> st1\<lparr>logged := logged st1 @ [Skip_invalid_word_type vid]\<rparr>))))"

definition matcher_init :: matcher where
  "matcher_init = \<lparr>cursor = 0, matches = [], used = [], logged = [], gc_calls = 0\<rparr>"

text \<open>
  \<open>_match_words_to_script\<close>: the state after the last item; the function returns its
  \<open>matches\<close>.
\<close>

definition match_words_to_script ::
  "(ustr \<Rightarrow> ustr) \<Rightarrow> (ustr \<Rightarrow> ustr \<Rightarrow> rat) \<Rightarrow> word list \<Rightarrow> (int \<times> ustr) list \<Rightarrow> matcher" where
  "match_words_to_script low ratio all_words script_items =
     foldl (item_step low ratio all_words) matcher_init (List.enumerate 0 script_items)"

text \<open>
  A similarity measure that answers \<open>r\<close> for every pair. The theorems hold for every
  measure; concrete runs of the model use this one and say which answer they assume.
\<close>

definition const_ratio :: "rat \<Rightarrow> ustr \<Rightarrow> ustr \<Rightarrow> rat" where
  "const_ratio r a b = r"

text \<open>
  A stand-in for the library's measure, for concrete runs only: \<open>1\<close> when the two texts
  are equal up to leading whitespace of the first, \<open>0\<close> otherwise.
\<close>

definition toy_ratio :: "ustr \<Rightarrow> ustr \<Rightarrow> rat" where
  "toy_ratio a b = (if dropWhile is_space a = b then 1 else 0)"

text \<open>Inputs for concrete runs.\<close>

definition demo_words :: "word list" where
  "demo_words =
     [Dict (Some (u ''hello'')) (Some 0) (Some (1 / 2)),
      Dict (Some (u ''world'')) (Some (1 / 2)) (Some 1),
      Dict (Some (u ''goodbye'')) (Some (12 / 10)) (Some (17 / 10)),
      Dict (Some (u ''now'')) (Some (17 / 10)) (Some 2)]"

definition long_word :: ustr where
  "long_word = replicate 5001 97"

section \<open>Process execution kernel (\<open>safe_kernel.py\<close>, \<open>execute_safe\<close>)\<close>

text \<open>
  What the surroundings answer during one call of \<open>execute_safe\<close>. The stop flag is set by
  another thread; the model has its value at each place where \<open>_is_stopped()\<close> is called.
  \<^item> \<open>stop_at_entry\<close>: the flag at the first line of \<open>execute_safe\<close>;
  \<^item> \<open>launch_ok\<close>: \<open>subprocess.Popen\<close> starts the process (otherwise it raises
    \<open>FileNotFoundError\<close> or \<open>OSError\<close>);
  \<^item> \<open>run_result\<close>: what \<open>subprocess.run\<close> does when \<open>stream\<close> is false;
  \<^item> \<open>polls\<close>: one entry for every pass of the \<open>while True\<close> loop of the streaming mode;
  \<^item> \<open>stop_at_end\<close>: the flag when the external process is over, which is where the
    check after the process is made if the call gets there.
  In one pass, \<open>stop_seen\<close> is the flag at the top of the pass, \<open>timed_out\<close> says that a
  \<open>timeout\<close> was given and has elapsed, \<open>line\<close> is what \<open>proc.stderr.readline()\<close> returns,
  \<open>exit_code\<close> is \<open>proc.poll()\<close>, and \<open>terminate_raises\<close> and \<open>wait_raises\<close> say whether
  \<open>proc.terminate()\<close> and \<open>proc.wait(timeout=2)\<close> raise (the latter when the process has not
  exited after the two seconds). \<open>readline()\<close> returns when the process has written a
  line or has closed its stderr, so a pass lasts until then, and the flag is next read
  at the top of the pass that follows. The command is a list of arguments, as in every
  call of the engines. The process creation flags are those of Windows, as in the source.
  \<open>log_func\<close> and the environment passed to the process are left out.
\<close>

datatype run_result = Run_timeout | Run_not_found | Run_completed int string

record poll =
  stop_seen :: bool
  timed_out :: bool
  line :: string
  exit_code :: "int option"
  terminate_raises :: bool
  wait_raises :: bool

record world =
  stop_at_entry :: bool
  launch_ok :: bool
  run_result :: run_result
  polls :: "poll list"
  stop_at_end :: bool

text \<open>What \<open>execute_safe\<close> does to the process and to the disk, in order.\<close>

datatype action = Run | Popen | Terminate | Wait nat | Kill | Write_last_failed_cmd

record completed =
  returncode :: int
  stderr :: string

text \<open>
  The result of a call: what was done, and how the call ended. \<open>outcome\<close> is \<open>None\<close> when
  the entries of \<open>polls\<close> are used up before the loop has ended.
\<close>

record result =
  outcome :: "(exn + completed) option"
  actions :: "action list"

text \<open>
  The end of both modes:
  \<^verbatim>\<open>if _is_stopped(): raise RuntimeError("STOPPED")
  if check and cp.returncode != 0: _raise_ffmpeg_crash(...)
  return cp\<close>
\<close>

definition finish :: "bool \<Rightarrow> world \<Rightarrow> completed \<Rightarrow> action list \<Rightarrow> result" where
  "finish check w cp acts =
     (if stop_at_end w then \<lparr>outcome = Some (Inl (RuntimeError ''STOPPED'')), actions = acts\<rparr>
      else if check \<and> returncode cp \<noteq> 0
      then \<lparr>outcome = Some (Inl (RuntimeError ''FFMPEG CRASHED:'')),
            actions = acts @ [Write_last_failed_cmd]\<rparr>
      else \<lparr>outcome = Some (Inr cp), actions = acts\<rparr>)"

text \<open>
  The \<open>while True\<close> loop of the streaming mode, with the lines of stderr read so far and
  the actions so far. On a stop, a failure of \<open>terminate()\<close> is ignored and \<open>wait(timeout=2)\<close>
  is tried in any case; on a timeout, \<open>terminate()\<close> and \<open>wait(timeout=2)\<close> stand in one
  \<open>try\<close>.
\<close>

fun poll_loop :: "bool \<Rightarrow> world \<Rightarrow> poll list \<Rightarrow> string list \<Rightarrow> action list \<Rightarrow> result" where
  "poll_loop check w [] stderr_acc acts = \<lparr>outcome = None, actions = acts\<rparr>"
| "poll_loop check w (p # ps) stderr_acc acts =
     (if stop_seen p then
        \<lparr>outcome = Some (Inl (RuntimeError ''STOPPED'')),
         actions = acts @ [Terminate, Wait 2] @ (if wait_raises p then [Kill] else [])\<rparr>
      else if timed_out p then
        \<lparr>outcome = Some (Inl (RuntimeError ''TIMEOUT'')),
         actions = acts @ [Terminate]
                   @ (if terminate_raises p then [Kill]
                      else [Wait 2] @ (if wait_raises p then [Kill] else []))\<rparr>
      else if line p \<noteq> [] then poll_loop check w ps (stderr_acc @ [line p]) acts
      else (case exit_code p of
              Some rc \<Rightarrow> finish check w \<lparr>returncode = rc, stderr = concat stderr_acc\<rparr> acts
            | None \<Rightarrow> poll_loop check w ps stderr_acc acts))"

definition execute_safe :: "bool \<Rightarrow> bool \<Rightarrow> world \<Rightarrow> result" where
  "execute_safe stream check w =
     (if stop_at_entry w then \<lparr>outcome = Some (Inl (RuntimeError ''STOPPED'')), actions = []\<rparr>
      else if \<not> stream then
        (case run_result w of
           Run_timeout \<Rightarrow>
             \<lparr>outcome = Some (Inl (RuntimeError ''TIMEOUT'')), actions = [Run, Write_last_failed_cmd]\<rparr>
         | Run_not_found \<Rightarrow>
             \<lparr>outcome = Some (Inl (RuntimeError ''CMD NOT FOUND:'')),
              actions = [Run, Write_last_failed_cmd]\<rparr>
         | Run_completed rc err \<Rightarrow> finish check w \<lparr>returncode = rc, stderr = err\<rparr> [Run])
      else if \<not> launch_ok w then
        \<lparr>outcome = Some (Inl (RuntimeError ''CMD NOT FOUND:'')),
         actions = [Popen, Write_last_failed_cmd]\<rparr>
      else poll_loop check w (polls w) [] [Popen])"

text \<open>
  A pass of the polling loop that neither stops nor times out nor sees the process
  exit: the loop goes on to the next pass.
\<close>

definition quiet :: "poll \<Rightarrow> bool" where
  "quiet p = (\<not> stop_seen p \<and> \<not> timed_out p \<and> (line p \<noteq> [] \<or> exit_code p = None))"

section \<open>Clip synthesis loops (\<open>process_task.py\<close>)\<close>

text \<open>
  Argument vectors, paths and file names are compared and passed on only; they are
  modelled as \<open>string\<close>. \<open>str_nat\<close>, \<open>str_int\<close> and \<open>zfill\<close> are Python's \<open>str\<close> on integers
  and \<open>str.zfill\<close>.
\<close>

function str_nat :: "nat \<Rightarrow> string" where
  "str_nat n = (if n < 10 then [''0123456789'' ! n] else str_nat (n div 10) @ [''0123456789'' ! (n mod 10)])"
  by pat_completeness auto
termination
  by (relation "measure id") auto

definition str_int :: "int \<Rightarrow> string" where
  "str_int i = (if i < 0 then CHR ''-'' # str_nat (nat (- i)) else str_nat (nat i))"

definition zfill :: "nat \<Rightarrow> string \<Rightarrow> string" where
  "zfill width s =
     (if width \<le> length s then s
      else (case s of
              c # r \<Rightarrow> if c = CHR ''+'' \<or> c = CHR ''-''
                       then c # replicate (width - length s) (CHR ''0'') @ r
                       else replicate (width - length s) (CHR ''0'') @ s
            | [] \<Rightarrow> replicate width (CHR ''0'')))"

text \<open>\<open>list.index\<close>, item assignment and \<open>list.insert\<close> (for an index within the list).\<close>

fun index_of :: "'a \<Rightarrow> 'a list \<Rightarrow> nat option" where
  "index_of x [] = None"
| "index_of x (y # ys) = (if y = x then Some 0 else map_option Suc (index_of x ys))"

definition insert_at :: "nat \<Rightarrow> 'a \<Rightarrow> 'a list \<Rightarrow> 'a list" where
  "insert_at i x xs = take i xs @ [x] @ drop i xs"

text \<open>
  The fallback command of the video cut, built from a copy of \<open>cmd_copy\<close>
  (\<open>_cutting_loop\<close> and \<open>process_task\<close> have the same four lines):
  \<^verbatim>\<open>cmd_aac = cmd_copy[:]
  cmd_aac[cmd_aac.index("-c:a") + 1] = "aac"
  cmd_aac.insert(cmd_aac.index("-shortest"), "192k")
  cmd_aac.insert(cmd_aac.index("-shortest"), "-b:a")\<close>
\<close>

definition make_cmd_aac :: "string list \<Rightarrow> exn + string list" where
  "make_cmd_aac cmd_copy =
     (case index_of ''-c:a'' cmd_copy of
        None \<Rightarrow> Inl ValueError
      | Some i \<Rightarrow>
          if length cmd_copy \<le> i + 1 then Inl IndexError
          else
            (let c1 = cmd_copy[i + 1 := ''aac'']
             in case index_of ''-shortest'' c1 of
                  None \<Rightarrow> Inl ValueError
                | Some j \<Rightarrow>
                    (let c2 = insert_at j ''192k'' c1
                     in case index_of ''-shortest'' c2 of
                          None \<Rightarrow> Inl ValueError
                        | Some k \<Rightarrow> Inr (insert_at k ''-b:a'' c2))))"

text \<open>
  The callbacks and the surroundings of the loops. An answer of the surroundings may
  depend on everything that was called before (\<open>calls\<close>), which stands for the time of
  the call.
  \<^item> \<open>ffmpeg_runner\<close>: the callback; \<open>None\<close> when it returns, the exception when it raises;
  \<^item> \<open>stop_check\<close>: the callback that reads the engine's stop flag;
  \<^item> \<open>gc_func\<close>: whether the optional callback is given;
  \<^item> \<open>find_video\<close>: \<open>_find_video_by_vid_any_ext(video_source_dir, vid)\<close>, a directory listing;
  \<^item> \<open>probe\<close>: \<open>_ffprobe_has_video_stream\<close>, which runs \<open>ffprobe\<close>;
  \<^item> \<open>image_clip\<close>: \<open>_make_image_clip(picked, v_out, ..., enc_name, enc_preset, ...)\<close>, which
    builds a filter graph and runs the transcoder; only whether it raises is modelled;
  \<^item> \<open>str_float\<close>: Python's \<open>str\<close> on floats; \<open>path_join\<close>: \<open>os.path.join\<close>.
  Creating the output directory (\<open>os.makedirs\<close>) is taken to succeed.
\<close>

datatype call =
    Ffmpeg "string list"
  | Ffprobe string
  | Make_image_clip string string string string
  | Gc_collect

record env =
  ffmpeg_runner :: "call list \<Rightarrow> string list \<Rightarrow> exn option"
  stop_check :: "call list \<Rightarrow> bool"
  gc_func :: bool
  find_video :: "int \<Rightarrow> string option"
  probe :: "call list \<Rightarrow> string \<Rightarrow> bool"
  image_clip :: "call list \<Rightarrow> string \<Rightarrow> string \<Rightarrow> string \<Rightarrow> string \<Rightarrow> exn option"
  str_float :: "pyfloat \<Rightarrow> string"
  path_join :: "string \<Rightarrow> string \<Rightarrow> string"

record params =
  audio_path :: string
  out_aud :: string
  out_vid :: string
  enc_name :: string
  enc_preset :: string
  ffmpeg_threads :: "string list"
  files :: "string list"
  start_idx :: nat

text \<open>
  The messages handed to \<open>log_func\<close>, by kind: the stop message, the failed audio cut
  (with the exception), the line of a finished clip (position, id, and whether a video
  was cut), the missing visual, the line of a finished image clip.
\<close>

datatype loop_log =
    Log_stopped
  | Log_audio_failed int exn
  | Log_clip nat int bool
  | Log_no_visual int
  | Log_image nat int

record loop_state =
  processed :: nat
  calls :: "call list"
  visual_cursor :: nat
  loop_log :: "loop_log list"

text \<open>
  How one pass of a \<open>for\<close> loop ends: at its end or by \<open>continue\<close> (\<open>Go\<close>), by \<open>break\<close>
  (\<open>Stop\<close>), or with an exception that leaves the loop (\<open>Raise\<close>).
\<close>

datatype step = Go loop_state | Stop loop_state | Raise exn loop_state

fun run_loop :: "(loop_state \<Rightarrow> 'a \<Rightarrow> step) \<Rightarrow> loop_state \<Rightarrow> 'a list \<Rightarrow> exn option \<times> loop_state" where
  "run_loop body st [] = (None, st)"
| "run_loop body st (x # xs) =
     (case body st x of
        Go st' \<Rightarrow> run_loop body st' xs
      | Stop st' \<Rightarrow> (None, st')
      | Raise e st' \<Rightarrow> (Some e, st'))"

definition called :: "call \<Rightarrow> loop_state \<Rightarrow> loop_state" where
  "called c st = st\<lparr>calls := calls st @ [c]\<rparr>"

definition logged_line :: "loop_log \<Rightarrow> loop_state \<Rightarrow> loop_state" where
  "logged_line l st = st\<lparr>loop_log := loop_log st @ [l]\<rparr>"

definition periodic_gc :: "env \<Rightarrow> nat \<Rightarrow> loop_state \<Rightarrow> loop_state" where
  "periodic_gc e idx st = (if idx mod 20 = 0 \<and> gc_func e then called Gc_collect st else st)"

definition audio_cmd :: "env \<Rightarrow> params \<Rightarrow> int \<Rightarrow> pyfloat \<Rightarrow> pyfloat \<Rightarrow> string list" where
  "audio_cmd e ps vid s_time e_time =
     [''ffmpeg'', ''-y'', ''-ss'', str_float e s_time, ''-to'', str_float e e_time,
      ''-i'', audio_path ps, ''-vn'', ''-acodec'', ''libmp3lame'', ''-q:a'', ''2'',
      ''-loglevel'', ''error'',
      path_join e (out_aud ps) (zfill 3 (str_int vid) @ ''.mp3'')]"

text \<open>\<open>cmd_copy\<close> of \<open>_cutting_loop\<close>.\<close>

definition cmd_copy :: "env \<Rightarrow> params \<Rightarrow> int \<Rightarrow> pyfloat \<Rightarrow> string \<Rightarrow> string list" where
  "cmd_copy e ps vid duration video_src =
     [''ffmpeg'', ''-y''] @ ffmpeg_threads ps @
     [''-ss'', ''0'', ''-i'', video_src, ''-t'', str_float e duration,
      ''-vf'', ''scale=trunc(iw/2)*2:trunc(ih/2)*2,fps=30'',
      ''-map'', ''0:v:0'', ''-map'', ''0:a?'',
      ''-c:v'', enc_name ps, ''-preset'', enc_preset ps,
      ''-pix_fmt'', ''yuv420p'', ''-c:a'', ''copy'', ''-shortest'',
      ''-map_metadata'', ''-1'', ''-loglevel'', ''error'',
      path_join e (out_vid ps) (zfill 3 (str_int vid) @ ''.mp4'')]"

text \<open>\<open>cmd_copy\<close> of the \<open>sk1\<close> branch of \<open>process_task\<close>.\<close>

definition cmd_copy_task :: "env \<Rightarrow> params \<Rightarrow> int \<Rightarrow> pyfloat \<Rightarrow> string \<Rightarrow> string list" where
  "cmd_copy_task e ps vid duration video_src =
     [''ffmpeg'', ''-y'', ''-ss'', ''0'', ''-i'', video_src, ''-t'', str_float e duration,
      ''-vf'', ''scale=trunc(iw/2)*2:trunc(ih/2)*2,fps=30'',
      ''-map'', ''0:v:0'', ''-map'', ''0:a?'',
      ''-c:v'', enc_name ps, ''-preset'', enc_preset ps,
      ''-pix_fmt'', ''yuv420p'', ''-c:a'', ''copy'',
      ''-shortest'', ''-loglevel'', ''error'',
      path_join e (out_vid ps) (zfill 3 (str_int vid) @ ''.mp4'')]"

text \<open>
  One pass of the \<open>for\<close> loop of \<open>_cutting_loop\<close>, for the segment at position \<open>idx\<close>
  (counted from 1).
\<close>

definition cutting_step ::
  "env \<Rightarrow> params \<Rightarrow> loop_state \<Rightarrow> nat \<times> int \<times> pyfloat \<times> pyfloat \<times> ustr \<Rightarrow> step" where
  "cutting_step e ps st seg =
     (case seg of (idx, vid, s_time, e_time, text) \<Rightarrow>
        if stop_check e (calls st) then Stop (logged_line Log_stopped st)
        else
          (let st1 = periodic_gc e idx st;
               duration = e_time - s_time;
               a_cmd = audio_cmd e ps vid s_time e_time;
               st2 = called (Ffmpeg a_cmd) st1
           in case ffmpeg_runner e (calls st1) a_cmd of
                Some audio_err \<Rightarrow> Go (logged_line (Log_audio_failed vid audio_err) st2)
              | None \<Rightarrow>
                  (case find_video e vid of
                     None \<Rightarrow>
                       Go ((logged_line (Log_clip idx vid False) st2)\<lparr>processed := processed st2 + 1\<rparr>)
                   | Some video_src \<Rightarrow>
                       (let c_copy = cmd_copy e ps vid duration video_src;
                            st3 = called (Ffmpeg c_copy) st2;
                            done = (\<lambda>s. Go ((logged_line (Log_clip idx vid True) s)
                                                \<lparr>processed := processed s + 1\<rparr>))
                        in case ffmpeg_runner e (calls st2) c_copy of
                             None \<Rightarrow> done st3
                           | Some copy_err \<Rightarrow>
                               (case make_cmd_aac c_copy of
                                  Inl err \<Rightarrow> Raise err st3
                                | Inr c_aac \<Rightarrow>
                                    (case ffmpeg_runner e (calls st3) c_aac of
                                       None \<Rightarrow> done (called (Ffmpeg c_aac) st3)
                                     | Some err \<Rightarrow> Raise err (called (Ffmpeg c_aac) st3)))))))"

definition loop_init :: "nat \<Rightarrow> loop_state" where
  "loop_init c = \<lparr>processed = 0, calls = [], visual_cursor = c, loop_log = []\<rparr>"

text \<open>
  \<open>_cutting_loop\<close>: the exception that left the loop, if any, and the state at the end;
  without an exception the function returns \<open>processed\<close>.
\<close>

definition cutting_loop ::
  "env \<Rightarrow> params \<Rightarrow> (int \<times> pyfloat \<times> pyfloat \<times> ustr) list \<Rightarrow> exn option \<times> loop_state" where
  "cutting_loop e ps ms = run_loop (cutting_step e ps) (loop_init 0) (List.enumerate 1 ms)"

text \<open>
  The round-robin choice of \<open>_image_flow_loop\<close>, with \<open>n\<close> tries left:
  \<^verbatim>\<open>while tries < len(files):
      p = files[cursor % len(files)]; cursor += 1; tries += 1
      if _ffprobe_has_video_stream(p): picked = p; break\<close>
\<close>

fun pick_visual :: "env \<Rightarrow> string list \<Rightarrow> nat \<Rightarrow> loop_state \<Rightarrow> string option \<times> loop_state" where
  "pick_visual e fs 0 st = (None, st)"
| "pick_visual e fs (Suc n) st =
     (let p = fs ! (visual_cursor st mod length fs);
          st' = (called (Ffprobe p) st)\<lparr>visual_cursor := visual_cursor st + 1\<rparr>
      in if probe e (calls st) p then (Some p, st') else pick_visual e fs n st')"

text \<open>One pass of the \<open>for\<close> loop of \<open>_image_flow_loop\<close>.\<close>

definition image_step ::
  "env \<Rightarrow> params \<Rightarrow> loop_state \<Rightarrow> nat \<times> int \<times> pyfloat \<times> pyfloat \<times> ustr \<Rightarrow> step" where
  "image_step e ps st seg =
     (case seg of (idx, vid, s_time, e_time, text) \<Rightarrow>
        if stop_check e (calls st) then Stop (logged_line Log_stopped st)
        else
          (let st1 = periodic_gc e idx st;
               a_cmd = audio_cmd e ps vid s_time e_time;
               st2 = called (Ffmpeg a_cmd) st1
           in case ffmpeg_runner e (calls st1) a_cmd of
                Some audio_err \<Rightarrow> Go (logged_line (Log_audio_failed vid audio_err) st2)
              | None \<Rightarrow>
                  (case pick_visual e (files ps) (length (files ps)) st2 of
                     (picked, st3) \<Rightarrow>
                       if picked = None \<or> picked = Some [] then Go (logged_line (Log_no_visual vid) st3)
                       else
                         (let v_out = path_join e (out_vid ps) (zfill 3 (str_int vid) @ ''.mp4'');
                              hw = Make_image_clip (the picked) v_out (enc_name ps) (enc_preset ps);
                              sw = Make_image_clip (the picked) v_out ''libx264'' ''ultrafast'';
                              done = (\<lambda>s. Go ((logged_line (Log_image idx vid) s)
                                                  \<lparr>processed := processed s + 1\<rparr>))
                          in case image_clip e (calls st3) (the picked) v_out (enc_name ps) (enc_preset ps) of
                               None \<Rightarrow> done (called hw st3)
                             | Some hw_err \<Rightarrow>
                                 (case image_clip e (calls (called hw st3)) (the picked) v_out
                                         ''libx264'' ''ultrafast'' of
                                    None \<Rightarrow> done (called sw (called hw st3))
                                  | Some err \<Rightarrow> Raise err (called sw (called hw st3)))))))"

definition image_flow_loop ::
  "env \<Rightarrow> params \<Rightarrow> (int \<times> pyfloat \<times> pyfloat \<times> ustr) list \<Rightarrow> exn option \<times> loop_state" where
  "image_flow_loop e ps ms =
     run_loop (image_step e ps) (loop_init (start_idx ps)) (List.enumerate 1 ms)"

text \<open>
  Surroundings for concrete runs. \<open>demo_str_float\<close> is Python's \<open>str\<close> on the five
  times that occur below. In \<open>failing_env\<close> every
  audio cut succeeds and every video command fails; in \<open>copy_failing_env\<close> only the
  commands with \<open>copy\<close> fail.
\<close>

definition demo_str_float :: "pyfloat \<Rightarrow> string" where
  "demo_str_float r =
     (case map_of [(0, ''0.0''), (8 / 10, ''0.8''), (1, ''1.0''), (12 / 10, ''1.2''), (2, ''2.0'')] r of
        Some s \<Rightarrow> s
      | None \<Rightarrow> ''?'')"

definition demo_join :: "string \<Rightarrow> string \<Rightarrow> string" where
  "demo_join d f = d @ ''/'' @ f"

definition failing_env :: env where
  "failing_env =
     \<lparr>ffmpeg_runner = (\<lambda>h cmd. if ''-vn'' \<in> set cmd then None else Some (RuntimeError ''FFMPEG CRASHED:'')),
      stop_check = (\<lambda>h. False),
      gc_func = True,
      find_video = (\<lambda>vid. Some (''vids/'' @ str_int vid @ ''.mp4'')),
      probe = (\<lambda>h p. True),
      image_clip = (\<lambda>h p out enc preset. Some (RuntimeError ''FFMPEG CRASHED:'')),
      str_float = demo_str_float,
      path_join = demo_join\<rparr>"

definition copy_failing_env :: env where
  "copy_failing_env =
     \<lparr>ffmpeg_runner = (\<lambda>h cmd. if ''copy'' \<in> set cmd then Some (RuntimeError ''FFMPEG CRASHED:'') else None),
      stop_check = (\<lambda>h. False),
      gc_func = True,
      find_video = (\<lambda>vid. Some (''vids/'' @ str_int vid @ ''.mp4'')),
      probe = (\<lambda>h p. True),
      image_clip = (\<lambda>h p out enc preset. if enc = ''libx264'' then None else Some (RuntimeError ''FFMPEG CRASHED:'')),
      str_float = demo_str_float,
      path_join = demo_join\<rparr>"

definition demo_params :: params where
  "demo_params =
     \<lparr>audio_path = ''in.wav'', out_aud = ''out/audios'', out_vid = ''out/videos'',
      enc_name = ''h264_nvenc'', enc_preset = ''p1'', ffmpeg_threads = [''-threads'', ''0''],
      files = [''img/a.png'', ''img/b.png''], start_idx = 0\<rparr>"

definition demo_matches :: "(int \<times> pyfloat \<times> pyfloat \<times> ustr) list" where
  "demo_matches = [(1, 0, 1, u ''hello world''), (2, 12 / 10, 2, u ''goodbye now'')]"

text \<open>
  The fallback command that the loop builds for segment 1 of \<open>demo_matches\<close>, and
  surroundings in which the stop flag is set once the first external call has been
  made.
\<close>

definition aac_cmd_1 :: "string list" where
  "aac_cmd_1 =
     [''ffmpeg'', ''-y'', ''-threads'', ''0'', ''-ss'', ''0'', ''-i'', ''vids/1.mp4'',
      ''-t'', ''1.0'', ''-vf'', ''scale=trunc(iw/2)*2:trunc(ih/2)*2,fps=30'',
      ''-map'', ''0:v:0'', ''-map'', ''0:a?'', ''-c:v'', ''h264_nvenc'', ''-preset'', ''p1'',
      ''-pix_fmt'', ''yuv420p'', ''-c:a'', ''aac'', ''192k'', ''-b:a'', ''-shortest'',
      ''-map_metadata'', ''-1'', ''-loglevel'', ''error'', ''out/videos/001.mp4'']"

definition stopping_env :: env where
  "stopping_env = copy_failing_env\<lparr>stop_check := (\<lambda>h. h \<noteq> [])\<rparr>"

text \<open>
  Passes of the polling loop and worlds for concrete runs of \<open>execute_safe\<close>: a pass that
  reads a line, a pass that sees the stop flag (and a process that ignores the request
  to terminate), a pass that sees the process gone with exit code 0, a pass in which
  the time limit has elapsed. In \<open>stopped_world\<close> the flag is set while the process runs;
  in \<open>silent_world\<close> it is set while a process runs that writes nothing to stderr, so that
  the first pass lasts until the process has ended by itself;
  in \<open>late_stop_world\<close> it is set when the process has exited with code 0; in
  \<open>timeout_world\<close> it is set while \<open>execute_safe\<close> deals with a timeout.
\<close>

definition line_poll :: poll where
  "line_poll = \<lparr>stop_seen = False, timed_out = False, line = ''frame=1'', exit_code = None,
                terminate_raises = False, wait_raises = False\<rparr>"

definition stop_poll :: poll where
  "stop_poll = \<lparr>stop_seen = True, timed_out = False, line = [], exit_code = None,
                terminate_raises = False, wait_raises = True\<rparr>"

definition exit_poll :: poll where
  "exit_poll = \<lparr>stop_seen = False, timed_out = False, line = [], exit_code = Some 0,
                terminate_raises = False, wait_raises = False\<rparr>"

definition timeout_poll :: poll where
  "timeout_poll = \<lparr>stop_seen = False, timed_out = True, line = [], exit_code = None,
                   terminate_raises = False, wait_raises = False\<rparr>"

definition stopped_world :: world where
  "stopped_world = \<lparr>stop_at_entry = False, launch_ok = True, run_result = Run_completed 0 [],
                    polls = [line_poll, stop_poll], stop_at_end = True\<rparr>"

definition late_stop_world :: world where
  "late_stop_world = \<lparr>stop_at_entry = False, launch_ok = True, run_result = Run_completed 0 [],
                      polls = [line_poll, exit_poll], stop_at_end = True\<rparr>"

definition silent_world :: world where
  "silent_world = \<lparr>stop_at_entry = False, launch_ok = True, run_result = Run_completed 0 [],
                   polls = [exit_poll], stop_at_end = True\<rparr>"

definition timeout_world :: world where
  "timeout_world = \<lparr>stop_at_entry = False, launch_ok = True, run_result = Run_timeout,
                    polls = [line_poll, timeout_poll], stop_at_end = True\<rparr>"

text \<open>
  The invariant of the \<open>for\<close> loop behind the monotonic cursor: the positions recorded
  so far, read segment after segment, increase strictly and lie below the cursor, and
  there is one list of positions for every tuple of \<open>matches\<close>.
\<close>

definition used_ok :: "matcher \<Rightarrow> bool" where
  "used_ok st = (sorted_wrt (<) (concat (used st)) \<and> list_all (\<lambda>i. i < cursor st) (concat (used st))
                 \<and> length (used st) = length (matches st))"

section \<open>Properties of the normalizer and the parser\<close>

lemma ascii_lower_cp_idem: "ascii_lower_cp (ascii_lower_cp c) = ascii_lower_cp c"
  by (simp add: ascii_lower_cp_def)

lemma ascii_lower_stable: "lower_stable ascii_lower"
  unfolding lower_stable_def ascii_lower_def
proof (intro allI impI)
  fix s t :: ustr
  assume sub: "set t \<subseteq> set (map ascii_lower_cp s)"
  have "ascii_lower_cp c = c" if "c \<in> set t" for c
  proof -
    from that sub obtain x where "c = ascii_lower_cp x" by auto
    then show ?thesis by (simp add: ascii_lower_cp_idem)
  qed
  then show "map ascii_lower_cp t = t"
    by (simp add: map_idI)
qed

lemmas run_defs = while_body_def acc_init_def Let_def clean_text_def
  ascii_lower_def ascii_lower_cp_def u_def punct_def MAX_COLLECTED_LEN_def const_ratio_def
  toy_ratio_def is_space_def

text \<open>
  C8. The text normalizer is idempotent: \<open>_clean_text(_clean_text(s))\<close> equals
  \<open>_clean_text(s)\<close> for every string \<open>s\<close>. The runtime's \<open>str.lower\<close> is a parameter; what
  is used of it is that lower-cased text is left alone by \<open>str.lower\<close>.
\<close>

theorem clean_text_idempotent:
  assumes "lower_stable low"
  shows "clean_text low (clean_text low s) = clean_text low s"
proof -
  have "set (clean_text low s) \<subseteq> set (low s)"
    by (auto simp: clean_text_def)
  with assms have fixed: "low (clean_text low s) = clean_text low s"
    unfolding lower_stable_def by blast
  have "clean_text low (clean_text low s) = filter (\<lambda>c. c \<notin> set punct) (low (clean_text low s))"
    by (simp add: clean_text_def)
  also have "\<dots> = filter (\<lambda>c. c \<notin> set punct) (clean_text low s)"
    by (simp only: fixed)
  also have "\<dots> = clean_text low s"
    by (simp add: clean_text_def)
  finally show ?thesis .
qed

theorem clean_text_idempotent_witness:
  "clean_text ascii_lower (u ''Hello, World!'') = u ''hello world'' \<and>
   clean_text ascii_lower (clean_text ascii_lower (u ''Hello, World!'')) = u ''hello world''"
proof -
  have v: "clean_text ascii_lower (u ''Hello, World!'') = u ''hello world''"
    by (simp add: run_defs)
  show ?thesis
    using clean_text_idempotent [OF ascii_lower_stable, of "u ''Hello, World!''"] v by simp
qed

text \<open>A text without \<open>[\<close> has no marker: the parser returns the empty list.\<close>

lemma findall_no_bracket: "91 \<notin> set s \<Longrightarrow> findall digit s = []"
proof (induction s)
  case Nil
  then show ?case by simp
next
  case (Cons c s)
  have "match_marker digit (c # s) = None"
    using Cons.prems by (auto simp: match_marker_def split: list.splits)
  with Cons show ?case by simp
qed

lemma parse_script_no_bracket: "91 \<notin> set content \<Longrightarrow> parse_script digit content = []"
  by (simp add: parse_script_def findall_no_bracket del: findall.simps)

text \<open>
  C5, as stated: when the parser produces zero items from non-empty input, the parser
  operation fails with a \<open>ScriptFormatError\<close>, rather than returning an empty list or
  raising another error type. On the input \<open>hello world\<close> \<open>_parse_script\<close> returns the empty
  list, and the image-flow entry point raises a plain \<open>RuntimeError\<close>.
\<close>

theorem parse_empty_counterexample:
  "parse_script ascii_digit (u ''hello world'') = [] \<and>
   sk3_script_items ascii_digit (u ''hello world'')
     = Inl (RuntimeError ''Script parse empty. Format: [V1] ... [V2] ...'')"
  by (simp add: parse_script_def sk3_script_items_def match_marker_def u_def)

text \<open>
  C5, amended: \<open>_parse_script\<close> itself never fails; on a text without a marker it returns
  the empty list. When it returns the empty list, the image-flow entry point
  (\<open>process_image_flow\<close>) fails with \<open>RuntimeError("Script parse empty. ...")\<close>; otherwise it
  goes on with the parsed items.
\<close>

theorem parse_empty_outcome:
  "(91 \<notin> set content \<longrightarrow> parse_script digit content = [])
   \<and> (parse_script digit content = [] \<longrightarrow>
        sk3_script_items digit content
          = Inl (RuntimeError ''Script parse empty. Format: [V1] ... [V2] ...''))
   \<and> (parse_script digit content \<noteq> [] \<longrightarrow>
        sk3_script_items digit content = Inr (parse_script digit content))"
  by (simp add: sk3_script_items_def parse_script_no_bracket del: findall.simps)

theorem parse_empty_outcome_witness:
  "91 \<notin> set (u ''no marker here'')
   \<and> parse_script ascii_digit (u ''no marker here'') = []
   \<and> sk3_script_items ascii_digit (u ''no marker here'')
       = Inl (RuntimeError ''Script parse empty. Format: [V1] ... [V2] ...'')
   \<and> parse_script ascii_digit (u ''[V7] one'') = [(7, u ''one'')]
   \<and> sk3_script_items ascii_digit (u ''[V7] one'') = Inr [(7, u ''one'')]"
proof -
  have a: "91 \<notin> set (u ''no marker here'')"
    by (simp add: u_def)
  have b: "parse_script ascii_digit (u ''[V7] one'') = [(7, u ''one'')]"
    by (simp add: parse_script_def match_marker_def u_def ascii_digit_def is_space_def
        strip_def int_of_digits_def)
  show ?thesis
    using parse_empty_outcome [of "u ''no marker here''" ascii_digit]
      parse_empty_outcome [of "u ''[V7] one''" ascii_digit] a b
    by simp
qed

section \<open>Properties of the aligner\<close>

declare while_loop.simps [simp del]

text \<open>
  The loop rule for \<open>while_loop\<close>: \<open>I\<close> holds on entry and is kept by every pass that goes
  on; \<open>Q\<close> holds after a \<open>break\<close> and when the words are used up.
\<close>

lemma while_loop_rule:
  assumes init: "I st"
    and nxt: "\<And>s s'. I s \<Longrightarrow> word_ptr s < length all_words \<Longrightarrow>
                while_body low ratio all_words target s = (Next, s') \<Longrightarrow> I s'"
    and brk: "\<And>s s'. I s \<Longrightarrow> word_ptr s < length all_words \<Longrightarrow>
                while_body low ratio all_words target s = (Break, s') \<Longrightarrow> Q s'"
    and fin: "\<And>s. I s \<Longrightarrow> \<not> word_ptr s < length all_words \<Longrightarrow> Q s"
  shows "Q (while_loop low ratio all_words target st)"
  using init
proof (induction "length all_words - word_ptr st" arbitrary: st rule: less_induct)
  case less
  show ?case
  proof (cases "word_ptr st < length all_words")
    case False
    then show ?thesis
      using less.prems fin by (simp add: while_loop.simps [of _ _ _ _ st])
  next
    case True
    obtain fl s' where b: "while_body low ratio all_words target st = (fl, s')"
      by (cases "while_body low ratio all_words target st")
    have ptr: "word_ptr s' = word_ptr st + 1"
      using while_body_word_ptr [of low ratio all_words target st] b by simp
    show ?thesis
    proof (cases fl)
      case Break
      then show ?thesis
        using True b brk less.prems by (simp add: while_loop.simps [of _ _ _ _ st])
    next
      case Next
      have "I s'" using nxt less.prems True b Next by blast
      moreover have "length all_words - word_ptr s' < length all_words - word_ptr st"
        using ptr True by simp
      ultimately have "Q (while_loop low ratio all_words target s')"
        using less.hyps by blast
      then show ?thesis
        using True b Next by (simp add: while_loop.simps [of _ _ _ _ st])
    qed
  qed
qed

lemma demo_run:
  "match_words_to_script ascii_lower toy_ratio demo_words
     (parse_script ascii_digit (u ''[V1] hello world [V2] goodbye now''))
   = \<lparr>cursor = 4,
      matches = [(1, 0, 1, u ''hello world''), (2, 12 / 10, 2, u ''goodbye now'')],
      used = [[0, 1], [2, 3]], logged = [], gc_calls = 0\<rparr>"
  by (simp add: match_words_to_script_def item_step_def matcher_init_def demo_words_def
      while_loop.simps run_defs parse_script_def match_marker_def ascii_digit_def strip_def
      int_of_digits_def GC_INTERVAL_def)

text \<open>
  C9. For a script item whose normalized text is empty, the aligner emits no segment
  and leaves the word cursor unchanged; the matches emitted so far (and everything else
  but the log, which gets the message of the skip) are unaffected.
\<close>

theorem item_step_empty_target:
  assumes "clean_text low text = []"
  shows "item_step low ratio all_words st (item_idx, vid, text)
           = st\<lparr>logged := logged st @ [Skip_empty_target vid]\<rparr>"
  using assms by (simp add: item_step_def)

theorem item_step_empty_target_witness:
  "clean_text ascii_lower (u ''...!'') = []
   \<and> item_step ascii_lower toy_ratio demo_words
        \<lparr>cursor = 2, matches = [(1, 0, 1, u ''hello world'')], used = [[0, 1]],
         logged = [], gc_calls = 0\<rparr> (1, 3, u ''...!'')
      = \<lparr>cursor = 2, matches = [(1, 0, 1, u ''hello world'')], used = [[0, 1]],
         logged = [Skip_empty_target 3], gc_calls = 0\<rparr>"
proof -
  have e: "clean_text ascii_lower (u ''...!'') = []"
    by (simp add: run_defs)
  show ?thesis
    using item_step_empty_target [OF e, of toy_ratio demo_words
        "\<lparr>cursor = 2, matches = [(1, 0, 1, u ''hello world'')], used = [[0, 1]],
          logged = [], gc_calls = 0\<rparr>" 1 3] e
    by simp
qed

lemma words_inv:
  assumes "p \<le> word_ptr s \<and> sorted_wrt (<) (map fst (current_words s))
           \<and> (\<forall>i \<in> set (map fst (current_words s)). p \<le> i \<and> i < word_ptr s)"
    and "while_body low ratio all_words target s = (fl, s')"
  shows "p \<le> word_ptr s' \<and> sorted_wrt (<) (map fst (current_words s'))
           \<and> (\<forall>i \<in> set (map fst (current_words s')). p \<le> i \<and> i < word_ptr s')"
  using assms
proof -
  have old: "i < Suc (word_ptr s)" if "i \<in> fst ` set (current_words s)" for i
    using assms(1) that by (auto simp: less_SucI)
  have cw: "current_words s' = current_words s
            \<or> (\<exists>w. current_words s' = current_words s @ [(word_ptr s, w)])"
    using assms(2) by (auto simp: while_body_def Let_def split: word.splits if_splits)
  have ptr: "word_ptr s' = Suc (word_ptr s)"
    using while_body_word_ptr [of low ratio all_words target s] assms(2) by simp
  from cw show ?thesis
  proof
    assume "current_words s' = current_words s"
    then show ?thesis using assms(1) ptr old by auto
  next
    assume "\<exists>w. current_words s' = current_words s @ [(word_ptr s, w)]"
    then obtain w where "current_words s' = current_words s @ [(word_ptr s, w)]" ..
    then show ?thesis using assms(1) ptr old by (auto simp: sorted_wrt_append)
  qed
qed

lemma while_loop_words:
  "cursor0 \<le> word_ptr (while_loop low ratio all_words target (acc_init cursor0))
   \<and> sorted_wrt (<) (map fst (current_words (while_loop low ratio all_words target (acc_init cursor0))))
   \<and> (\<forall>i \<in> set (map fst (current_words (while_loop low ratio all_words target (acc_init cursor0)))).
         cursor0 \<le> i \<and> i < word_ptr (while_loop low ratio all_words target (acc_init cursor0)))"
proof (rule while_loop_rule [where I = "\<lambda>s. cursor0 \<le> word_ptr s \<and> sorted_wrt (<) (map fst (current_words s))
           \<and> (\<forall>i \<in> set (map fst (current_words s)). cursor0 \<le> i \<and> i < word_ptr s)"])
  show "cursor0 \<le> word_ptr (acc_init cursor0) \<and> sorted_wrt (<) (map fst (current_words (acc_init cursor0)))
           \<and> (\<forall>i \<in> set (map fst (current_words (acc_init cursor0))). cursor0 \<le> i \<and> i < word_ptr (acc_init cursor0))"
    by (simp add: acc_init_def)
qed (use words_inv in blast)+

text \<open>
  What \<open>current_words\<close> holds are elements of \<open>all_words\<close> at the positions kept with
  them, and all of them are \<open>dict\<close>s (so the test on the first and the last collected
  word never fails).
\<close>

lemma words_refer_inv:
  assumes "list_all (\<lambda>(i, w). i < length all_words \<and> all_words ! i = w \<and> w \<noteq> NotDict) (current_words s)"
    and "word_ptr s < length all_words"
    and "while_body low ratio all_words target s = (fl, s')"
  shows "list_all (\<lambda>(i, w). i < length all_words \<and> all_words ! i = w \<and> w \<noteq> NotDict) (current_words s')"
  using assms
  by (auto simp: while_body_def Let_def split: word.splits if_splits)

lemma current_words_refer:
  "list_all (\<lambda>(i, w). i < length all_words \<and> all_words ! i = w \<and> w \<noteq> NotDict)
     (current_words (while_loop low ratio all_words target (acc_init p)))"
proof (rule while_loop_rule [where I = "\<lambda>s. list_all (\<lambda>(i, w). i < length all_words \<and> all_words ! i = w \<and> w \<noteq> NotDict) (current_words s)"])
  show "list_all (\<lambda>(i, w). i < length all_words \<and> all_words ! i = w \<and> w \<noteq> NotDict)
     (current_words (acc_init p))"
    by (simp add: acc_init_def)
qed (use words_refer_inv in blast)+

lemma item_step_used_ok:
  assumes "used_ok st"
  shows "used_ok (item_step low ratio all_words st item)"
proof -
  obtain item_idx vid t where item: "item = (item_idx, vid, t)"
    by (cases item) auto
  let ?a = "while_loop low ratio all_words (clean_text low t) (acc_init (cursor st))"
  have w: "cursor st \<le> word_ptr ?a" "sorted_wrt (<) (map fst (current_words ?a))"
    "\<forall>i \<in> set (map fst (current_words ?a)). cursor st \<le> i \<and> i < word_ptr ?a"
    using while_loop_words [of "cursor st" low ratio all_words "clean_text low t"] by blast+
  have old: "list_all (\<lambda>i. i < word_ptr ?a) (concat (used st))"
    using assms w(1) by (fastforce simp: used_ok_def list_all_iff)
  have new: "list_all (\<lambda>i. i < word_ptr ?a) (map fst (current_words ?a))"
    using w(3) by (auto simp: list_all_iff)
  have cross: "\<forall>x \<in> set (concat (used st)). \<forall>y \<in> set (map fst (current_words ?a)). x < y"
    using assms w(3) by (fastforce simp: used_ok_def list_all_iff)
  show ?thesis
  proof (cases "clean_text low t = []")
    case True
    then show ?thesis
      using assms by (simp add: item item_step_def used_ok_def)
  next
    case target: False
    show ?thesis
    proof (cases "current_words ?a = []")
      case True
      then show ?thesis
        using assms target old by (simp add: item item_step_def used_ok_def Let_def)
    next
      case False
      then show ?thesis
        using assms target old new cross w(2)
        by (simp add: item item_step_def used_ok_def Let_def sorted_wrt_append
                 split: word.splits)
    qed
  qed
qed

lemma foldl_used_ok:
  "used_ok st \<Longrightarrow> used_ok (foldl (item_step low ratio all_words) st items)"
  by (induction items arbitrary: st) (simp_all add: item_step_used_ok)

lemma sorted_concat_blocks:
  assumes "sorted_wrt (<) (concat xss)" "i < j" "j < length xss"
    and "a \<in> set (xss ! i)" "(b::nat) \<in> set (xss ! j)"
  shows "a < b"
proof -
  have parts: "xss = take j xss @ (xss ! j) # drop (Suc j) xss"
    using assms(3) by (simp add: id_take_nth_drop)
  have "xss ! i \<in> set (take j xss)"
    using assms(2,3) by (metis in_set_conv_nth length_take min.absorb2 nth_take less_imp_le_nat)
  then have "a \<in> set (concat (take j xss))"
    using assms(4) by auto
  moreover have "sorted_wrt (<) (concat (take j xss) @ (xss ! j) @ concat (drop (Suc j) xss))"
    using assms(1) parts by (metis concat.simps(2) concat_append)
  ultimately show ?thesis
    using assms(5) by (auto simp: sorted_wrt_append)
qed

lemma used_one_per_match:
  "length (used (match_words_to_script low ratio all_words script_items))
   = length (matches (match_words_to_script low ratio all_words script_items))"
proof -
  have "used_ok matcher_init"
    by (simp add: used_ok_def matcher_init_def)
  then have "used_ok (match_words_to_script low ratio all_words script_items)"
    unfolding match_words_to_script_def by (rule foldl_used_ok)
  then show ?thesis
    by (simp add: used_ok_def)
qed

text \<open>
  C2. The word cursor is monotonic: every word collected for a later segment lies
  behind every word collected for an earlier segment, so no word is used twice and no
  segment looks back. \<open>used\<close> lists, segment by segment, the positions of the collected
  words.
\<close>

theorem cursor_monotonic:
  assumes "i < j" and "j < length (used (match_words_to_script low ratio all_words script_items))"
    and "a \<in> set (used (match_words_to_script low ratio all_words script_items) ! i)"
    and "b \<in> set (used (match_words_to_script low ratio all_words script_items) ! j)"
  shows "a < b"
proof -
  have "used_ok matcher_init"
    by (simp add: used_ok_def matcher_init_def)
  then have "used_ok (match_words_to_script low ratio all_words script_items)"
    unfolding match_words_to_script_def by (rule foldl_used_ok)
  then have "sorted_wrt (<) (concat (used (match_words_to_script low ratio all_words script_items)))"
    by (simp add: used_ok_def)
  then show ?thesis
    using assms by (rule sorted_concat_blocks)
qed

theorem cursor_monotonic_witness:
  "used (match_words_to_script ascii_lower toy_ratio demo_words
           [(1, u ''hello world''), (2, u ''goodbye now'')]) = [[0, 1], [2, 3]]
   \<and> (1::nat) < 2"
proof -
  have r: "used (match_words_to_script ascii_lower toy_ratio demo_words
           [(1, u ''hello world''), (2, u ''goodbye now'')]) = [[0, 1], [2, 3]]"
    by (simp add: match_words_to_script_def item_step_def matcher_init_def demo_words_def
        while_loop.simps run_defs GC_INTERVAL_def)
  show ?thesis
    using cursor_monotonic [of 0 1 ascii_lower toy_ratio demo_words
        "[(1, u ''hello world''), (2, u ''goodbye now'')]" 1 2] r
    by simp
qed

lemma ratio_inv:
  assumes "\<forall>c. Ratio_call c \<in> set (trace s) \<longrightarrow> length target \<le> 2 * length c \<and> length c \<le> MAX_COLLECTED_LEN"
    and "while_body low ratio all_words target s = (fl, s')"
  shows "\<forall>c. Ratio_call c \<in> set (trace s') \<longrightarrow> length target \<le> 2 * length c \<and> length c \<le> MAX_COLLECTED_LEN"
  using assms
  by (auto simp: while_body_def Let_def split: word.splits if_splits)

text \<open>
  C3, as stated: the similarity ratio is computed only once the normalized buffer has
  reached half the length of the normalized target. With the target \<open>united states\<close>
  (13 code points) and the transcribed word \<open>U.S.A.\<close>, the ratio is computed in the first
  pass, where the normalized buffer has 4 code points.
\<close>

theorem ratio_before_half_counterexample:
  "trace (while_loop ascii_lower (const_ratio 0) [Dict (Some (u ''U.S.A.'')) (Some 0) (Some 1)]
            (clean_text ascii_lower (u ''United States'')) (acc_init 0))
     = [Iteration [], Ratio_call (u '' U.S.A.'')]
   \<and> clean_text ascii_lower (u '' U.S.A.'') = u '' usa''
   \<and> 2 * length (u '' usa'') < length (clean_text ascii_lower (u ''United States''))"
  by (simp add: while_loop.simps run_defs)

text \<open>
  C3, amended: the similarity ratio is computed only once the accumulated buffer as
  collected (before normalization, with its separators and punctuation) has reached
  half the length of the normalized target, and only while that buffer is within the
  safety cap.
\<close>

theorem ratio_after_half_raw:
  assumes "Ratio_call c \<in> set (trace (while_loop low ratio all_words target (acc_init p)))"
  shows "length target \<le> 2 * length c \<and> length c \<le> MAX_COLLECTED_LEN"
proof -
  have "\<forall>c. Ratio_call c \<in> set (trace (while_loop low ratio all_words target (acc_init p)))
          \<longrightarrow> length target \<le> 2 * length c \<and> length c \<le> MAX_COLLECTED_LEN"
  proof (rule while_loop_rule [where I = "\<lambda>s. \<forall>c. Ratio_call c \<in> set (trace s)
           \<longrightarrow> length target \<le> 2 * length c \<and> length c \<le> MAX_COLLECTED_LEN"])
    show "\<forall>c. Ratio_call c \<in> set (trace (acc_init p))
           \<longrightarrow> length target \<le> 2 * length c \<and> length c \<le> MAX_COLLECTED_LEN"
      by (simp add: acc_init_def)
  qed (use ratio_inv in blast)+
  with assms show ?thesis by blast
qed

theorem ratio_after_half_raw_witness:
  "Ratio_call (u '' U.S.A.'') \<in> set (trace (while_loop ascii_lower (const_ratio 0)
        [Dict (Some (u ''U.S.A.'')) (Some 0) (Some 1)]
        (clean_text ascii_lower (u ''United States'')) (acc_init 0)))
   \<and> length (clean_text ascii_lower (u ''United States'')) \<le> 2 * length (u '' U.S.A.'')
   \<and> length (u '' U.S.A.'') \<le> MAX_COLLECTED_LEN"
proof -
  have m: "Ratio_call (u '' U.S.A.'') \<in> set (trace (while_loop ascii_lower (const_ratio 0)
        [Dict (Some (u ''U.S.A.'')) (Some 0) (Some 1)]
        (clean_text ascii_lower (u ''United States'')) (acc_init 0)))"
    by (simp add: while_loop.simps run_defs)
  show ?thesis
    using ratio_after_half_raw [OF m] m by simp
qed

lemma cap_inv:
  assumes "length (collected s) \<le> MAX_COLLECTED_LEN \<and> (\<forall>b. Iteration b \<in> set (trace s) \<longrightarrow> length b \<le> MAX_COLLECTED_LEN)"
    and "while_body low ratio all_words target s = (fl, s')"
  shows "(\<forall>b. Iteration b \<in> set (trace s') \<longrightarrow> length b \<le> MAX_COLLECTED_LEN)
         \<and> (fl = Next \<longrightarrow> length (collected s') \<le> MAX_COLLECTED_LEN)"
  using assms
  by (auto simp: while_body_def Let_def split: word.splits if_splits)

lemma trace_iterations_capped:
  "\<forall>b. Iteration b \<in> set (trace (while_loop low ratio all_words target (acc_init p)))
       \<longrightarrow> length b \<le> MAX_COLLECTED_LEN"
proof (rule while_loop_rule [where I = "\<lambda>s. length (collected s) \<le> MAX_COLLECTED_LEN
         \<and> (\<forall>b. Iteration b \<in> set (trace s) \<longrightarrow> length b \<le> MAX_COLLECTED_LEN)"])
  show "length (collected (acc_init p)) \<le> MAX_COLLECTED_LEN
     \<and> (\<forall>b. Iteration b \<in> set (trace (acc_init p)) \<longrightarrow> length b \<le> MAX_COLLECTED_LEN)"
    by (simp add: acc_init_def)
qed (use cap_inv in blast)+

lemma cap_exit:
  assumes "word_ptr st < length all_words"
    and "MAX_COLLECTED_LEN < length (collected (snd (while_body low ratio all_words target st)))"
  shows "while_loop low ratio all_words target st = snd (while_body low ratio all_words target st)
       \<and> trace (snd (while_body low ratio all_words target st)) = trace st @ [Iteration (collected st)]"
proof -
  have "fst (while_body low ratio all_words target st) = Break
        \<and> trace (snd (while_body low ratio all_words target st)) = trace st @ [Iteration (collected st)]"
    using assms(2) by (auto simp: while_body_def Let_def split: word.splits if_splits)
  then show ?thesis
    using assms(1) by (cases "while_body low ratio all_words target st") (simp add: while_loop.simps [of _ _ _ _ st])
qed

lemma long_run:
  "while_loop ascii_lower toy_ratio
        [Dict (Some (u ''hello'')) (Some 0) (Some 1), Dict (Some long_word) (Some 1) (Some 2),
         Dict (Some (u ''world'')) (Some 2) (Some 3)]
        (u ''hello hello world'') (acc_init 0)
   = \<lparr>word_ptr = 2, collected = u '' hello '' @ long_word,
      current_words = [(0, Dict (Some (u ''hello'')) (Some 0) (Some 1)),
                       (1, Dict (Some long_word) (Some 1) (Some 2))],
      trace = [Iteration [], Iteration (u '' hello'')]\<rparr>"
  by (simp add: while_loop.simps run_defs long_word_def)

text \<open>
  C4. At the start of every pass of the word-accumulation loop the accumulated buffer
  has at most \<open>MAX_COLLECTED_LEN\<close> (5000) code points; and a pass that takes the buffer
  beyond the cap leaves the loop at once, without a similarity comparison, with the
  buffer as it is.
\<close>

theorem safety_cap:
  "(Iteration b \<in> set (trace (while_loop low ratio all_words target (acc_init p)))
      \<longrightarrow> length b \<le> MAX_COLLECTED_LEN)
   \<and> (word_ptr st < length all_words
        \<and> MAX_COLLECTED_LEN < length (collected (snd (while_body low ratio all_words target st)))
      \<longrightarrow> while_loop low ratio all_words target st = snd (while_body low ratio all_words target st)
        \<and> trace (snd (while_body low ratio all_words target st)) = trace st @ [Iteration (collected st)])"
  using trace_iterations_capped [of low ratio all_words target p]
    cap_exit [of st all_words low ratio target] by blast

theorem safety_cap_witness:
  "Iteration (u '' hello'') \<in> set (trace (while_loop ascii_lower toy_ratio
        [Dict (Some (u ''hello'')) (Some 0) (Some 1), Dict (Some long_word) (Some 1) (Some 2),
         Dict (Some (u ''world'')) (Some 2) (Some 3)]
        (u ''hello hello world'') (acc_init 0)))
   \<and> length (u '' hello'') \<le> MAX_COLLECTED_LEN
   \<and> MAX_COLLECTED_LEN < length (collected (snd (while_body ascii_lower toy_ratio
        [Dict (Some long_word) (Some 1) (Some 2), Dict (Some (u ''world'')) (Some 2) (Some 3)]
        (u ''hello'') (acc_init 0))))
   \<and> while_loop ascii_lower toy_ratio
        [Dict (Some long_word) (Some 1) (Some 2), Dict (Some (u ''world'')) (Some 2) (Some 3)]
        (u ''hello'') (acc_init 0)
      = \<lparr>word_ptr = 1, collected = 32 # long_word,
         current_words = [(0, Dict (Some long_word) (Some 1) (Some 2))],
         trace = [Iteration []]\<rparr>"
proof -
  have m: "Iteration (u '' hello'') \<in> set (trace (while_loop ascii_lower toy_ratio
        [Dict (Some (u ''hello'')) (Some 0) (Some 1), Dict (Some long_word) (Some 1) (Some 2),
         Dict (Some (u ''world'')) (Some 2) (Some 3)]
        (u ''hello hello world'') (acc_init 0)))"
    by (simp add: long_run)
  have b: "while_body ascii_lower toy_ratio
        [Dict (Some long_word) (Some 1) (Some 2), Dict (Some (u ''world'')) (Some 2) (Some 3)]
        (u ''hello'') (acc_init 0)
      = (Break, \<lparr>word_ptr = 1, collected = 32 # long_word,
         current_words = [(0, Dict (Some long_word) (Some 1) (Some 2))],
         trace = [Iteration []]\<rparr>)"
    by (simp add: run_defs long_word_def)
  have c: "MAX_COLLECTED_LEN < length (32 # long_word)"
    by (simp add: MAX_COLLECTED_LEN_def long_word_def)
  show ?thesis
    using safety_cap [of "u '' hello''" ascii_lower toy_ratio
        "[Dict (Some (u ''hello'')) (Some 0) (Some 1), Dict (Some long_word) (Some 1) (Some 2),
          Dict (Some (u ''world'')) (Some 2) (Some 3)]" "u ''hello hello world''" 0
        "acc_init 0"
        ]
      safety_cap [of "[]" ascii_lower toy_ratio
        "[Dict (Some long_word) (Some 1) (Some 2), Dict (Some (u ''world'')) (Some 2) (Some 3)]"
        "u ''hello''" 0 "acc_init 0"]
      m b c
    by (simp add: acc_init_def)
qed

section \<open>Properties of the clip synthesis loops\<close>

lemma replicate_numeral: "replicate (numeral k) x = x # replicate (pred_numeral k) x"
  by (simp add: numeral_eq_Suc)

lemmas loop_defs = replicate_numeral cutting_loop_def image_flow_loop_def cutting_step_def image_step_def
  loop_init_def called_def logged_line_def periodic_gc_def audio_cmd_def cmd_copy_def
  make_cmd_aac_def insert_at_def zfill_def str_int_def demo_str_float_def demo_join_def
  failing_env_def copy_failing_env_def demo_params_def demo_matches_def Let_def

lemma processed_called [simp]: "processed (called c st) = processed st"
  by (simp add: called_def)

lemma processed_logged_line [simp]: "processed (logged_line l st) = processed st"
  by (simp add: logged_line_def)

lemma processed_periodic_gc [simp]: "processed (periodic_gc e idx st) = processed st"
  by (simp add: periodic_gc_def)

lemma index_of_append_notin: "x \<notin> set pre \<Longrightarrow> index_of x (pre @ x # post) = Some (length pre)"
  by (induction pre) auto

lemma make_cmd_aac_shape:
  assumes "''-c:a'' \<notin> set pre" "''-shortest'' \<notin> set pre"
  shows "make_cmd_aac (pre @ [''-c:a'', ''copy'', ''-shortest''] @ post)
         = Inr (pre @ [''-c:a'', ''aac'', ''192k'', ''-b:a'', ''-shortest''] @ post)"
proof -
  have i: "index_of ''-c:a'' (pre @ ''-c:a'' # ''copy'' # ''-shortest'' # post) = Some (length pre)"
    using assms(1) by (rule index_of_append_notin)
  have c1: "(pre @ ''-c:a'' # ''copy'' # ''-shortest'' # post)[length pre + 1 := ''aac'']
            = (pre @ [''-c:a'', ''aac'']) @ ''-shortest'' # post"
    by (simp add: list_update_append)
  have n1: "''-shortest'' \<notin> set (pre @ [''-c:a'', ''aac''])"
    using assms(2) by simp
  have j: "index_of ''-shortest'' ((pre @ [''-c:a'', ''aac'']) @ ''-shortest'' # post) = Some (length pre + 2)"
    using index_of_append_notin [OF n1, of post] by simp
  have c2: "insert_at (length pre + 2) ''192k'' ((pre @ [''-c:a'', ''aac'']) @ ''-shortest'' # post)
            = (pre @ [''-c:a'', ''aac'', ''192k'']) @ ''-shortest'' # post"
    by (simp add: insert_at_def)
  have n2: "''-shortest'' \<notin> set (pre @ [''-c:a'', ''aac'', ''192k''])"
    using assms(2) by simp
  have k: "index_of ''-shortest'' ((pre @ [''-c:a'', ''aac'', ''192k'']) @ ''-shortest'' # post) = Some (length pre + 3)"
    using index_of_append_notin [OF n2, of post] by simp
  have c3: "insert_at (length pre + 3) ''-b:a'' ((pre @ [''-c:a'', ''aac'', ''192k'']) @ ''-shortest'' # post)
            = pre @ [''-c:a'', ''aac'', ''192k'', ''-b:a'', ''-shortest''] @ post"
    by (simp add: insert_at_def)
  show ?thesis
    unfolding make_cmd_aac_def using i c1 j c2 k c3 by (simp add: Let_def)
qed

text \<open>
  C7. In video-cut mode, when the stream-copy command fails, the command is rebuilt
  with \<open>aac\<close> in place of \<open>copy\<close> and with \<open>-b:a\<close> immediately followed by \<open>192k\<close>, and retried
  once. The code does rebuild and retry once, but the two \<open>insert\<close> calls look up
  \<open>-shortest\<close> anew each time, so the rebuilt command reads \<open>-c:a aac 192k -b:a -shortest\<close>:
  \<open>192k\<close> comes before \<open>-b:a\<close>, and \<open>-b:a\<close> is followed by \<open>-shortest\<close>. This is the command
  for segment 1 of the concrete run, in \<open>_cutting_loop\<close> and in \<open>process_task\<close>
  (\<open>make_cmd_aac_shape\<close> above: the same for every command of this form).
\<close>

theorem fallback_command_order:
  "make_cmd_aac (cmd_copy failing_env demo_params 1 1 ''vids/1.mp4'')
     = Inr [''ffmpeg'', ''-y'', ''-threads'', ''0'', ''-ss'', ''0'', ''-i'', ''vids/1.mp4'',
            ''-t'', ''1.0'', ''-vf'', ''scale=trunc(iw/2)*2:trunc(ih/2)*2,fps=30'',
            ''-map'', ''0:v:0'', ''-map'', ''0:a?'', ''-c:v'', ''h264_nvenc'', ''-preset'', ''p1'',
            ''-pix_fmt'', ''yuv420p'', ''-c:a'', ''aac'', ''192k'', ''-b:a'', ''-shortest'',
            ''-map_metadata'', ''-1'', ''-loglevel'', ''error'', ''out/videos/001.mp4'']
   \<and> make_cmd_aac (cmd_copy_task failing_env demo_params 1 1 ''vids/1.mp4'')
     = Inr [''ffmpeg'', ''-y'', ''-ss'', ''0'', ''-i'', ''vids/1.mp4'',
            ''-t'', ''1.0'', ''-vf'', ''scale=trunc(iw/2)*2:trunc(ih/2)*2,fps=30'',
            ''-map'', ''0:v:0'', ''-map'', ''0:a?'', ''-c:v'', ''h264_nvenc'', ''-preset'', ''p1'',
            ''-pix_fmt'', ''yuv420p'', ''-c:a'', ''aac'', ''192k'', ''-b:a'', ''-shortest'',
            ''-loglevel'', ''error'', ''out/videos/001.mp4'']"
  by (simp add: loop_defs cmd_copy_task_def)

text \<open>
  C1, as stated: when a video-synthesis step fails for segment \<open>k\<close>, also when both the
  first attempt and the one retry fail, the loop still attempts the segments behind
  \<open>k\<close> and returns normally. In the run below both attempts fail for segment 1 of two
  segments: the exception of the retry leaves the loop, and nothing is called for
  segment 2, in \<open>_cutting_loop\<close> and in \<open>_image_flow_loop\<close>.
\<close>

theorem double_failure_counterexample:
  "cutting_loop failing_env demo_params demo_matches
     = (Some (RuntimeError ''FFMPEG CRASHED:''),
        \<lparr>processed = 0,
         calls = [Ffmpeg (audio_cmd failing_env demo_params 1 0 1),
                  Ffmpeg (cmd_copy failing_env demo_params 1 1 ''vids/1.mp4''),
                  Ffmpeg [''ffmpeg'', ''-y'', ''-threads'', ''0'', ''-ss'', ''0'', ''-i'', ''vids/1.mp4'',
                          ''-t'', ''1.0'', ''-vf'', ''scale=trunc(iw/2)*2:trunc(ih/2)*2,fps=30'',
                          ''-map'', ''0:v:0'', ''-map'', ''0:a?'', ''-c:v'', ''h264_nvenc'',
                          ''-preset'', ''p1'', ''-pix_fmt'', ''yuv420p'', ''-c:a'', ''aac'', ''192k'',
                          ''-b:a'', ''-shortest'', ''-map_metadata'', ''-1'', ''-loglevel'', ''error'',
                          ''out/videos/001.mp4'']],
         visual_cursor = 0, loop_log = []\<rparr>)
   \<and> image_flow_loop failing_env demo_params demo_matches
     = (Some (RuntimeError ''FFMPEG CRASHED:''),
        \<lparr>processed = 0,
         calls = [Ffmpeg (audio_cmd failing_env demo_params 1 0 1),
                  Ffprobe ''img/a.png'',
                  Make_image_clip ''img/a.png'' ''out/videos/001.mp4'' ''h264_nvenc'' ''p1'',
                  Make_image_clip ''img/a.png'' ''out/videos/001.mp4'' ''libx264'' ''ultrafast''],
         visual_cursor = 1, loop_log = []\<rparr>)"
  by (simp add: loop_defs)

text \<open>
  C1, amended: with no cancellation observed at the start of the pass for segment \<open>k\<close>,
  a failed audio cut is logged and the loop goes on with the segments behind \<open>k\<close>; a
  failed first video attempt is followed by one retry, and when the retry succeeds the
  segment is counted and the loop goes on; when the retry fails too, its exception
  leaves the loop at once, so that the segments behind \<open>k\<close> are not attempted (both in
  \<open>_cutting_loop\<close> and in \<open>_image_flow_loop\<close>).
\<close>

theorem second_failure_leaves_loop:
  fixes e :: env and ps :: params and st st4 :: loop_state and idx :: nat and vid :: int
    and s_time e_time :: pyfloat and seg_text :: ustr and src p :: string
  defines "st1 \<equiv> periodic_gc e idx st"
  defines "a_cmd \<equiv> audio_cmd e ps vid s_time e_time"
  defines "st2 \<equiv> called (Ffmpeg a_cmd) st1"
  defines "c_copy \<equiv> cmd_copy e ps vid (e_time - s_time) src"
  defines "st3 \<equiv> called (Ffmpeg c_copy) st2"
  defines "v_out \<equiv> path_join e (out_vid ps) (zfill 3 (str_int vid) @ ''.mp4'')"
  defines "st5 \<equiv> called (Make_image_clip p v_out (enc_name ps) (enc_preset ps)) st4"
  defines "seg \<equiv> (idx, vid, s_time, e_time, seg_text)"
  assumes running: "\<not> stop_check e (calls st)"
  shows "(ffmpeg_runner e (calls st1) a_cmd = Some a_err \<longrightarrow>
            run_loop (cutting_step e ps) st (seg # rest)
              = run_loop (cutting_step e ps) (logged_line (Log_audio_failed vid a_err) st2) rest)
       \<and> (ffmpeg_runner e (calls st1) a_cmd = None \<and> find_video e vid = Some src
            \<and> ffmpeg_runner e (calls st2) c_copy = Some c_err
            \<and> make_cmd_aac c_copy = Inr c_aac
            \<and> ffmpeg_runner e (calls st3) c_aac = None \<longrightarrow>
            run_loop (cutting_step e ps) st (seg # rest)
              = run_loop (cutting_step e ps)
                  ((logged_line (Log_clip idx vid True) (called (Ffmpeg c_aac) st3))
                     \<lparr>processed := processed st + 1\<rparr>) rest)
       \<and> (ffmpeg_runner e (calls st1) a_cmd = None \<and> find_video e vid = Some src
            \<and> ffmpeg_runner e (calls st2) c_copy = Some c_err
            \<and> make_cmd_aac c_copy = Inr c_aac
            \<and> ffmpeg_runner e (calls st3) c_aac = Some err \<longrightarrow>
            run_loop (cutting_step e ps) st (seg # rest) = (Some err, called (Ffmpeg c_aac) st3))
       \<and> (ffmpeg_runner e (calls st1) a_cmd = None
            \<and> pick_visual e (files ps) (length (files ps)) st2 = (Some p, st4) \<and> p \<noteq> []
            \<and> image_clip e (calls st4) p v_out (enc_name ps) (enc_preset ps) = Some hw_err
            \<and> image_clip e (calls st5) p v_out ''libx264'' ''ultrafast'' = None \<longrightarrow>
            run_loop (image_step e ps) st (seg # rest)
              = run_loop (image_step e ps)
                  ((logged_line (Log_image idx vid)
                      (called (Make_image_clip p v_out ''libx264'' ''ultrafast'') st5))
                     \<lparr>processed := processed st4 + 1\<rparr>) rest)
       \<and> (ffmpeg_runner e (calls st1) a_cmd = None
            \<and> pick_visual e (files ps) (length (files ps)) st2 = (Some p, st4) \<and> p \<noteq> []
            \<and> image_clip e (calls st4) p v_out (enc_name ps) (enc_preset ps) = Some hw_err
            \<and> image_clip e (calls st5) p v_out ''libx264'' ''ultrafast'' = Some err \<longrightarrow>
            run_loop (image_step e ps) st (seg # rest)
              = (Some err, called (Make_image_clip p v_out ''libx264'' ''ultrafast'') st5))"
proof (intro conjI impI)
  assume "ffmpeg_runner e (calls st1) a_cmd = Some a_err"
  then show "run_loop (cutting_step e ps) st (seg # rest)
      = run_loop (cutting_step e ps) (logged_line (Log_audio_failed vid a_err) st2) rest"
    using running unfolding st1_def a_cmd_def st2_def seg_def
    by (simp add: cutting_step_def Let_def)
next
  assume "ffmpeg_runner e (calls st1) a_cmd = None \<and> find_video e vid = Some src
     \<and> ffmpeg_runner e (calls st2) c_copy = Some c_err \<and> make_cmd_aac c_copy = Inr c_aac
     \<and> ffmpeg_runner e (calls st3) c_aac = None"
  then show "run_loop (cutting_step e ps) st (seg # rest)
      = run_loop (cutting_step e ps)
          ((logged_line (Log_clip idx vid True) (called (Ffmpeg c_aac) st3))
             \<lparr>processed := processed st + 1\<rparr>) rest"
    using running unfolding st1_def a_cmd_def st2_def c_copy_def st3_def seg_def
    by (simp add: cutting_step_def Let_def)
next
  assume "ffmpeg_runner e (calls st1) a_cmd = None \<and> find_video e vid = Some src
     \<and> ffmpeg_runner e (calls st2) c_copy = Some c_err \<and> make_cmd_aac c_copy = Inr c_aac
     \<and> ffmpeg_runner e (calls st3) c_aac = Some err"
  then show "run_loop (cutting_step e ps) st (seg # rest) = (Some err, called (Ffmpeg c_aac) st3)"
    using running unfolding st1_def a_cmd_def st2_def c_copy_def st3_def seg_def
    by (simp add: cutting_step_def Let_def)
next
  assume "ffmpeg_runner e (calls st1) a_cmd = None
     \<and> pick_visual e (files ps) (length (files ps)) st2 = (Some p, st4) \<and> p \<noteq> []
     \<and> image_clip e (calls st4) p v_out (enc_name ps) (enc_preset ps) = Some hw_err
     \<and> image_clip e (calls st5) p v_out ''libx264'' ''ultrafast'' = None"
  then show "run_loop (image_step e ps) st (seg # rest)
      = run_loop (image_step e ps)
          ((logged_line (Log_image idx vid)
              (called (Make_image_clip p v_out ''libx264'' ''ultrafast'') st5))
             \<lparr>processed := processed st4 + 1\<rparr>) rest"
    using running unfolding st1_def a_cmd_def st2_def v_out_def st5_def seg_def
    by (simp add: image_step_def Let_def)
next
  assume "ffmpeg_runner e (calls st1) a_cmd = None
     \<and> pick_visual e (files ps) (length (files ps)) st2 = (Some p, st4) \<and> p \<noteq> []
     \<and> image_clip e (calls st4) p v_out (enc_name ps) (enc_preset ps) = Some hw_err
     \<and> image_clip e (calls st5) p v_out ''libx264'' ''ultrafast'' = Some err"
  then show "run_loop (image_step e ps) st (seg # rest)
      = (Some err, called (Make_image_clip p v_out ''libx264'' ''ultrafast'') st5)"
    using running unfolding st1_def a_cmd_def st2_def v_out_def st5_def seg_def
    by (simp add: image_step_def Let_def)
qed

theorem second_failure_leaves_loop_witness:
  "\<not> stop_check failing_env (calls (loop_init 0))
   \<and> make_cmd_aac (cmd_copy failing_env demo_params 1 (1 - 0) ''vids/1.mp4'') = Inr aac_cmd_1
   \<and> run_loop (cutting_step failing_env demo_params) (loop_init 0)
        [(1, 1, 0, 1, u ''hello world''), (2, 2, 12 / 10, 2, u ''goodbye now'')]
      = (Some (RuntimeError ''FFMPEG CRASHED:''),
         called (Ffmpeg aac_cmd_1)
           (called (Ffmpeg (cmd_copy failing_env demo_params 1 (1 - 0) ''vids/1.mp4''))
             (called (Ffmpeg (audio_cmd failing_env demo_params 1 0 1))
               (periodic_gc failing_env 1 (loop_init 0)))))"
proof -
  have a: "\<not> stop_check failing_env (calls (loop_init 0))"
    by (simp add: failing_env_def)
  have b: "make_cmd_aac (cmd_copy failing_env demo_params 1 (1 - 0) ''vids/1.mp4'') = Inr aac_cmd_1"
    by (simp add: loop_defs aac_cmd_1_def)
  have c: "ffmpeg_runner failing_env h (audio_cmd failing_env demo_params 1 0 1) = None" for h
    by (simp add: failing_env_def audio_cmd_def)
  have d: "ffmpeg_runner failing_env h (cmd_copy failing_env demo_params 1 (1 - 0) ''vids/1.mp4'')
           = Some (RuntimeError ''FFMPEG CRASHED:'')" for h
    by (simp add: loop_defs)
  have f: "ffmpeg_runner failing_env h aac_cmd_1 = Some (RuntimeError ''FFMPEG CRASHED:'')" for h
    by (simp add: failing_env_def aac_cmd_1_def)
  have g: "find_video failing_env 1 = Some ''vids/1.mp4''"
    by (simp add: failing_env_def str_int_def)
  show ?thesis
    using second_failure_leaves_loop [OF a, where ps = demo_params and idx = 1 and vid = 1
        and s_time = 0 and e_time = 1 and src = "''vids/1.mp4''" and c_aac = aac_cmd_1
        and err = "RuntimeError ''FFMPEG CRASHED:''" and c_err = "RuntimeError ''FFMPEG CRASHED:''"
        and seg_text = "u ''hello world''" and rest = "[(2, 2, 12 / 10, 2, u ''goodbye now'')]"]
      a b c d f g
    by simp
qed

text \<open>A failed audio cut is logged and passed over in \<open>_image_flow_loop\<close> as well.\<close>

lemma image_audio_failure_goes_on:
  assumes "\<not> stop_check e (calls st)"
    and "ffmpeg_runner e (calls (periodic_gc e idx st)) (audio_cmd e ps vid s_time e_time) = Some a_err"
  shows "run_loop (image_step e ps) st ((idx, vid, s_time, e_time, seg_text) # rest)
         = run_loop (image_step e ps)
             (logged_line (Log_audio_failed vid a_err)
                (called (Ffmpeg (audio_cmd e ps vid s_time e_time)) (periodic_gc e idx st))) rest"
  using assms by (simp add: image_step_def Let_def)

section \<open>Properties of the execution kernel\<close>

lemma poll_loop_stop:
  "list_all quiet before \<Longrightarrow> stop_seen p \<Longrightarrow>
   poll_loop check w (before @ p # after) stderr_acc acts
     = \<lparr>outcome = Some (Inl (RuntimeError ''STOPPED'')),
        actions = acts @ [Terminate, Wait 2] @ (if wait_raises p then [Kill] else [])\<rparr>"
proof (induction before arbitrary: stderr_acc)
  case Nil
  then show ?case by simp
next
  case (Cons q before)
  then show ?case by (cases "exit_code q") (auto simp: quiet_def)
qed

lemma poll_loop_exit:
  "list_all quiet before \<Longrightarrow> \<not> stop_seen p \<Longrightarrow> \<not> timed_out p \<Longrightarrow> line p = [] \<Longrightarrow>
   exit_code p = Some rc \<Longrightarrow>
   \<exists>err. poll_loop check w (before @ p # after) stderr_acc acts
     = finish check w \<lparr>returncode = rc, stderr = err\<rparr> acts"
proof (induction before arbitrary: stderr_acc)
  case Nil
  then show ?case by auto
next
  case (Cons q before)
  then show ?case by (cases "exit_code q") (auto simp: quiet_def)
qed

lemma finish_no_success:
  "stop_at_end w \<Longrightarrow> outcome (finish check w cp acts) = Some (Inl (RuntimeError ''STOPPED''))"
  by (simp add: finish_def)

lemma poll_loop_no_success:
  "stop_at_end w \<Longrightarrow> outcome (poll_loop check w ps stderr_acc acts) \<noteq> Some (Inr cp)"
proof (induction ps arbitrary: stderr_acc)
  case Nil
  then show ?case by simp
next
  case (Cons q ps)
  then show ?case by (cases "exit_code q") (auto simp: finish_def)
qed

text \<open>
  What the code does with a stop flag that it reads. When a pass of the polling loop of
  the streaming mode (the mode in which the engines call the kernel) finds the flag
  set while the external process runs, the process is asked to terminate, is waited
  for for two seconds, and is killed if it has not exited by then, and \<open>STOPPED\<close> is
  raised. Every pass of the per-segment loops reads the stop flag before anything else
  and, when it is set, leaves the loop: no call is made for this segment or any later
  one.
\<close>

theorem stop_ends_process_and_loop:
  "(\<not> stop_at_entry w \<and> launch_ok w \<and> polls w = before @ p # after
      \<and> list_all quiet before \<and> stop_seen p \<longrightarrow>
      execute_safe True check w
        = \<lparr>outcome = Some (Inl (RuntimeError ''STOPPED'')),
           actions = [Popen, Terminate, Wait 2] @ (if wait_raises p then [Kill] else [])\<rparr>)
   \<and> (stop_check e (calls st) \<longrightarrow>
        run_loop (cutting_step e ps) st (seg # rest) = (None, logged_line Log_stopped st)
        \<and> run_loop (image_step e ps) st (seg # rest) = (None, logged_line Log_stopped st))"
proof (intro conjI impI)
  assume "\<not> stop_at_entry w \<and> launch_ok w \<and> polls w = before @ p # after
      \<and> list_all quiet before \<and> stop_seen p"
  then show "execute_safe True check w
        = \<lparr>outcome = Some (Inl (RuntimeError ''STOPPED'')),
           actions = [Popen, Terminate, Wait 2] @ (if wait_raises p then [Kill] else [])\<rparr>"
    using poll_loop_stop [of before p check w after "[]" "[Popen]"]
    by (simp add: execute_safe_def)
next
  assume "stop_check e (calls st)"
  then show "run_loop (cutting_step e ps) st (seg # rest) = (None, logged_line Log_stopped st)"
    by (cases seg) (simp add: cutting_step_def)
next
  assume "stop_check e (calls st)"
  then show "run_loop (image_step e ps) st (seg # rest) = (None, logged_line Log_stopped st)"
    by (cases seg) (simp add: image_step_def)
qed

theorem stop_ends_process_and_loop_witness:
  "execute_safe True True stopped_world
     = \<lparr>outcome = Some (Inl (RuntimeError ''STOPPED'')),
        actions = [Popen, Terminate, Wait 2, Kill]\<rparr>
   \<and> stop_check stopping_env (calls (called Gc_collect (loop_init 0)))
   \<and> run_loop (cutting_step stopping_env demo_params) (called Gc_collect (loop_init 0))
        [(1, 1, 0, 1, u ''hello world''), (2, 2, 12 / 10, 2, u ''goodbye now'')]
      = (None, logged_line Log_stopped (called Gc_collect (loop_init 0)))
   \<and> run_loop (image_step stopping_env demo_params) (called Gc_collect (loop_init 0))
        [(1, 1, 0, 1, u ''hello world''), (2, 2, 12 / 10, 2, u ''goodbye now'')]
      = (None, logged_line Log_stopped (called Gc_collect (loop_init 0)))"
proof -
  have a: "\<not> stop_at_entry stopped_world \<and> launch_ok stopped_world
           \<and> polls stopped_world = [line_poll] @ stop_poll # []
           \<and> list_all quiet [line_poll] \<and> stop_seen stop_poll"
    by (simp add: stopped_world_def line_poll_def stop_poll_def quiet_def)
  have b: "stop_check stopping_env (calls (called Gc_collect (loop_init 0)))"
    by (simp add: stopping_env_def called_def loop_init_def)
  have c: "wait_raises stop_poll"
    by (simp add: stop_poll_def)
  show ?thesis
    using stop_ends_process_and_loop [where w = stopped_world and before = "[line_poll]"
        and p = stop_poll and after = "[]" and check = True and e = stopping_env
        and st = "called Gc_collect (loop_init 0)" and ps = demo_params
        and seg = "(1, 1, 0, 1, u ''hello world'')"
        and rest = "[(2, 2, 12 / 10, 2, u ''goodbye now'')]"]
      a b c
    by simp
qed

text \<open>
  C6. Whenever the stop flag is set mid-run, the external process that is running is
  terminated (asked to terminate, then killed if it has not exited within two seconds)
  and no further segment is started. The second half holds (above). The first half needs
  the flag to be read while the process runs, and the polling loop reads it only at the
  top of a pass, after \<open>readline()\<close> has returned. The commands of the loops carry
  \<open>-loglevel error\<close>, so a process that meets no error writes nothing: in \<open>silent_world\<close> the
  flag is clear at entry and at the top of the first pass, is set while the process
  runs, and the pass ends when the process has ended by itself. \<open>execute_safe\<close> then raises
  \<open>STOPPED\<close> without having asked the process to terminate and without having killed it;
  the docstring of \<open>execute_safe\<close> promises terminate and kill on a stop.
\<close>

theorem silent_child_not_terminated:
  "execute_safe True True silent_world
     = \<lparr>outcome = Some (Inl (RuntimeError ''STOPPED'')), actions = [Popen]\<rparr>"
  by (simp add: execute_safe_def silent_world_def exit_poll_def finish_def)

text \<open>
  C10, as stated: if the stop flag is set at any point before \<open>execute_safe\<close> returns,
  \<open>execute_safe\<close> raises \<open>STOPPED\<close>. In \<open>timeout_world\<close> the flag is clear at entry and at the
  passes of the polling loop, the time limit elapses, and the flag is set by the time
  the process is over: \<open>execute_safe\<close> raises \<open>TIMEOUT\<close>, in the streaming mode and in the
  other.
\<close>

theorem stop_set_counterexample:
  "stop_at_end timeout_world
   \<and> execute_safe True True timeout_world
       = \<lparr>outcome = Some (Inl (RuntimeError ''TIMEOUT'')), actions = [Popen, Terminate, Wait 2]\<rparr>
   \<and> execute_safe False True timeout_world
       = \<lparr>outcome = Some (Inl (RuntimeError ''TIMEOUT'')), actions = [Run, Write_last_failed_cmd]\<rparr>"
  by (simp add: execute_safe_def timeout_world_def line_poll_def timeout_poll_def)

text \<open>
  C10, amended: if the stop flag is set at entry, or is set when the external process
  is over, \<open>execute_safe\<close> never returns a success result; when the process has run to
  its end, with whatever exit code (0 included), and the flag is set at the check that
  follows, \<open>execute_safe\<close> raises \<open>STOPPED\<close> and the completed process's result is discarded.
  (A timeout or a failed launch that is detected before the next check of the flag is
  raised as such.)
\<close>

theorem stop_check_after_process:
  "(stop_at_entry w \<or> stop_at_end w \<longrightarrow> outcome (execute_safe stream check w) \<noteq> Some (Inr cp))
   \<and> (\<not> stop_at_entry w \<and> run_result w = Run_completed rc err \<and> stop_at_end w \<longrightarrow>
        execute_safe False check w
          = \<lparr>outcome = Some (Inl (RuntimeError ''STOPPED'')), actions = [Run]\<rparr>)
   \<and> (\<not> stop_at_entry w \<and> launch_ok w \<and> polls w = before @ p # after \<and> list_all quiet before
        \<and> \<not> stop_seen p \<and> \<not> timed_out p \<and> line p = [] \<and> exit_code p = Some rc
        \<and> stop_at_end w \<longrightarrow>
        execute_safe True check w
          = \<lparr>outcome = Some (Inl (RuntimeError ''STOPPED'')), actions = [Popen]\<rparr>)"
proof (intro conjI impI)
  assume "stop_at_entry w \<or> stop_at_end w"
  then show "outcome (execute_safe stream check w) \<noteq> Some (Inr cp)"
    using poll_loop_no_success [of w check "polls w" "[]" "[Popen]" cp]
    by (auto simp: execute_safe_def finish_def split: run_result.splits)
next
  assume "\<not> stop_at_entry w \<and> run_result w = Run_completed rc err \<and> stop_at_end w"
  then show "execute_safe False check w
          = \<lparr>outcome = Some (Inl (RuntimeError ''STOPPED'')), actions = [Run]\<rparr>"
    by (simp add: execute_safe_def finish_def)
next
  assume a: "\<not> stop_at_entry w \<and> launch_ok w \<and> polls w = before @ p # after \<and> list_all quiet before
        \<and> \<not> stop_seen p \<and> \<not> timed_out p \<and> line p = [] \<and> exit_code p = Some rc
        \<and> stop_at_end w"
  then obtain err where "poll_loop check w (before @ p # after) [] [Popen]
      = finish check w \<lparr>returncode = rc, stderr = err\<rparr> [Popen]"
    using poll_loop_exit [of before p rc check w after "[]" "[Popen]"] by blast
  with a show "execute_safe True check w
          = \<lparr>outcome = Some (Inl (RuntimeError ''STOPPED'')), actions = [Popen]\<rparr>"
    by (simp add: execute_safe_def finish_def)
qed

theorem stop_check_after_process_witness:
  "stop_at_end late_stop_world
   \<and> exit_code exit_poll = Some 0
   \<and> execute_safe True True late_stop_world
       = \<lparr>outcome = Some (Inl (RuntimeError ''STOPPED'')), actions = [Popen]\<rparr>
   \<and> execute_safe False True late_stop_world
       = \<lparr>outcome = Some (Inl (RuntimeError ''STOPPED'')), actions = [Run]\<rparr>"
proof -
  have a: "\<not> stop_at_entry late_stop_world \<and> run_result late_stop_world = Run_completed 0 []
           \<and> stop_at_end late_stop_world"
    by (simp add: late_stop_world_def)
  have b: "\<not> stop_at_entry late_stop_world \<and> launch_ok late_stop_world
           \<and> polls late_stop_world = [line_poll] @ exit_poll # [] \<and> list_all quiet [line_poll]
           \<and> \<not> stop_seen exit_poll \<and> \<not> timed_out exit_poll \<and> line exit_poll = []
           \<and> exit_code exit_poll = Some 0 \<and> stop_at_end late_stop_world"
    by (simp add: late_stop_world_def line_poll_def exit_poll_def quiet_def)
  show ?thesis
    using stop_check_after_process [where w = late_stop_world and stream = True
        and check = True and rc = 0 and err = "[]" and before = "[line_poll]"
        and p = exit_poll and after = "[]"] a b
    by simp
qed

end
